theory Spec2Isabelle
  imports Main "HOL-Library.Word"
begin

section \<open>Strings and arrays of the source language\<close>

text \<open>
  A JavaScript string is a sequence of 16-bit code units; a regular expression without
  the \<open>u\<close> flag and the operators \<open>===\<close>, \<open>+\<close> and \<open>includes\<close> work on code units.
  Literals of the source are written \<open>js ''...''\<close>.
\<close>

type_synonym js_string = "16 word list"

definition js :: "string \<Rightarrow> js_string" where
  "js s = map (\<lambda>c. of_nat (of_char c)) s"

text \<open>
  \<open>Array.prototype.slice(start)\<close> with one argument: a negative start counts from the
  end and is clamped at 0, a start beyond the end gives the empty array.
\<close>

definition js_slice :: "'a list \<Rightarrow> int \<Rightarrow> 'a list" where
  "js_slice xs start =
     (let len = int (length xs);
          k = (if start < 0 then max (len + start) 0 else min start len)
      in drop (nat k) xs)"

section \<open>session-manager.ts\<close>

text \<open>
  \<open>resolveSessionFile\<close>: every code unit outside \<open>[a-zA-Z0-9-_]\<close> is replaced by an
  underscore (the regular expression has the \<open>g\<close> flag: every occurrence), then
  \<open>path.join(sessionsDir, safeId + ".jsonl")\<close>. \<open>path.join\<close> belongs to the Node
  library, not to this repository; it is a parameter of the model.
\<close>

definition safe_unit :: "16 word \<Rightarrow> bool" where
  "safe_unit c =
     ((0x61 \<le> c \<and> c \<le> 0x7A) \<or> (0x41 \<le> c \<and> c \<le> 0x5A) \<or> (0x30 \<le> c \<and> c \<le> 0x39)
      \<or> c = 0x2D \<or> c = 0x5F)"

definition sanitize :: "js_string \<Rightarrow> js_string" where
  "sanitize sessionId = map (\<lambda>c. if safe_unit c then c else 0x5F) sessionId"

definition session_file_name :: "js_string \<Rightarrow> js_string" where
  "session_file_name sessionId = sanitize sessionId @ js ''.jsonl''"

definition resolveSessionFile ::
  "(js_string \<Rightarrow> js_string \<Rightarrow> js_string) \<Rightarrow> js_string \<Rightarrow> js_string \<Rightarrow> js_string" where
  "resolveSessionFile join sessionsDir sessionId =
     join sessionsDir (session_file_name sessionId)"

text \<open>
  \<open>limitHistoryTurns\<close>. \<open>maxTurns\<close> is a count (the only caller passes the constant 50),
  so it is a natural number here; then the second branch is reached with a non-empty
  array only and \<open>messages[0]\<close> is defined. The argument of \<open>slice\<close> is the integer
  \<open>-(maxTurns - 1)\<close>.
\<close>

definition limitHistoryTurns :: "'m list \<Rightarrow> nat \<Rightarrow> 'm list" where
  "limitHistoryTurns messages maxTurns =
     (if length messages \<le> maxTurns then messages
      else (let firstMessage = messages ! 0;
                recentMessages = js_slice messages (- (int maxTurns - 1))
            in firstMessage # recentMessages))"

section \<open>types.ts\<close>

datatype Provider = Anthropic | OpenAI | Bedrock

datatype MessageRole = User | Assistant | System

datatype json = JNull | JBool bool | JNumber int | JString js_string
  | JArray "json list" | JObject "(js_string \<times> json) list"

record ToolCall =
  tc_id :: js_string
  tc_name :: js_string
  tc_arguments :: json

record ToolResult =
  toolCallId :: js_string
  tr_content :: js_string
  tr_isError :: "bool option"

record Message =
  role :: MessageRole
  content :: js_string
  toolCalls :: "ToolCall list option"
  toolResults :: "ToolResult list option"

record ToolExecutionResult =
  te_content :: js_string
  te_isError :: "bool option"

record ToolContext =
  workspaceDir :: js_string
  abortSignal :: "nat option"

record Usage =
  inputTokens :: nat
  outputTokens :: nat

record RunError =
  kind :: js_string
  message :: js_string

record AgentRunResult =
  res_response :: js_string
  res_messages :: "Message list"
  res_usage :: "Usage option"
  res_error :: "RunError option"

section \<open>Effects\<close>

text \<open>
  An exception of the source is a value \<open>Error msg\<close> (the code reads \<open>err.message\<close>
  only). Everything outside the program (the file system, the clock, the model backends,
  the tools, the observers) acts on an abstract world \<open>'w\<close>; an action either returns a
  value or throws, and leaves a new world. \<open>await\<close> is sequential composition.
\<close>

datatype error = Error (err_message: js_string)

type_synonym ('a, 'w) io = "'w \<Rightarrow> (error + 'a) \<times> 'w"

definition io_return :: "'a \<Rightarrow> ('a, 'w) io" where
  "io_return x = (\<lambda>w. (Inr x, w))"

definition io_throw :: "error \<Rightarrow> ('a, 'w) io" where
  "io_throw e = (\<lambda>w. (Inl e, w))"

definition io_bind :: "('a, 'w) io \<Rightarrow> ('a \<Rightarrow> ('b, 'w) io) \<Rightarrow> ('b, 'w) io" where
  "io_bind m f = (\<lambda>w. case m w of (Inl e, w') \<Rightarrow> (Inl e, w') | (Inr x, w') \<Rightarrow> f x w')"

text \<open>\<open>try { m } catch (e) { h e }\<close>\<close>

definition io_catch :: "('a, 'w) io \<Rightarrow> (error \<Rightarrow> ('a, 'w) io) \<Rightarrow> ('a, 'w) io" where
  "io_catch m h = (\<lambda>w. case m w of (Inl e, w') \<Rightarrow> h e w' | (Inr x, w') \<Rightarrow> (Inr x, w'))"

text \<open>
  The outcome of a \<open>try\<close> block as a value, for a \<open>catch\<close> block that depends on how
  far the \<open>try\<close> block came.
\<close>

definition io_try :: "('a, 'w) io \<Rightarrow> (error + 'a, 'w) io" where
  "io_try m = (\<lambda>w. case m w of (r, w') \<Rightarrow> (Inr r, w'))"

text \<open>An action that cannot throw (reading the clock).\<close>

definition io_lift :: "('w \<Rightarrow> 'a \<times> 'w) \<Rightarrow> ('a, 'w) io" where
  "io_lift m = (\<lambda>w. case m w of (x, w') \<Rightarrow> (Inr x, w'))"

text \<open>An optional observer \<open>cb?.(x)\<close>: nothing happens when it is absent.\<close>

definition call_opt :: "('a \<Rightarrow> (unit, 'w) io) option \<Rightarrow> 'a \<Rightarrow> (unit, 'w) io" where
  "call_opt cb x = (case cb of None \<Rightarrow> io_return () | Some f \<Rightarrow> f x)"

section \<open>runner.ts: tools and backends\<close>

text \<open>
  A tool: its name and its \<open>execute\<close> (description and parameter schema only travel to
  the backend). The two SDK clients are outside the program. For the Anthropic client
  the model takes \<open>client.messages.stream(request)\<close>, the \<open>text\<close> events and
  \<open>await stream.finalMessage()\<close> as one action, which is given the observer of the text
  events and returns the deltas it emitted with the final message. For the OpenAI client
  it takes \<open>client.chat.completions.create\<close> and the \<open>for await\<close> loop over the chunks
  (lines 549-600 of the source) as one action returning what that loop accumulated: the
  text, the tool calls with their argument text, the token counts; the finish reason of
  the stream is in the chunks, and the source never reads it.
\<close>

record 'w Tool =
  name :: js_string
  execute :: "json \<Rightarrow> ToolContext \<Rightarrow> (ToolExecutionResult, 'w) io"

record Request =
  rq_model :: js_string
  rq_system :: js_string
  rq_messages :: "Message list"
  rq_tools :: "js_string list option"

datatype ContentBlock = TextBlock js_string | ToolUseBlock js_string js_string json | OtherBlock

record AnthropicFinal =
  text_events :: "js_string list"
  final_content :: "ContentBlock list"
  stop_reason :: "js_string option"
  input_tokens :: nat
  output_tokens :: nat

record RawToolCall =
  raw_id :: js_string
  raw_name :: js_string
  raw_arguments :: js_string

record OpenAIStream =
  streamed_text :: js_string
  streamed_toolCalls :: "RawToolCall list"
  prompt_tokens :: nat
  completion_tokens :: nat
  finish_reason :: "js_string option"

type_synonym 'w observer = "(js_string \<Rightarrow> (unit, 'w) io) option"

datatype 'w LLMClient =
    AnthropicSDK "Request \<Rightarrow> 'w observer \<Rightarrow> (AnthropicFinal, 'w) io"
  | OpenAISDK "Request \<Rightarrow> 'w observer \<Rightarrow> (OpenAIStream, 'w) io"

record 'w RunContext =
  client :: "'w LLMClient"
  tools :: "'w Tool list"
  toolContext :: ToolContext
  rc_sessionId :: js_string
  rc_model :: js_string
  rc_provider :: Provider
  onPartialReply :: "'w observer"
  onToolExecution :: "(js_string \<times> json \<Rightarrow> (unit, 'w) io) option"
  onToolResult :: "(js_string \<times> js_string \<Rightarrow> (unit, 'w) io) option"

definition MAX_TOOL_ITERATIONS :: nat where
  "MAX_TOOL_ITERATIONS = 25"

definition MAX_HISTORY_TURNS :: nat where
  "MAX_HISTORY_TURNS = 50"

text \<open>\<open>executeTool\<close> (lines 380-406).\<close>

definition executeTool ::
  "'w RunContext \<Rightarrow> js_string \<Rightarrow> json \<Rightarrow> (ToolExecutionResult, 'w) io" where
  "executeTool ctx toolName args =
     (case find (\<lambda>t. name t = toolName) (tools ctx) of
        None \<Rightarrow>
          io_return \<lparr>te_content = js ''Error: Unknown tool \"'' @ toolName @ js ''\"'',
                     te_isError = Some True\<rparr>
      | Some tool \<Rightarrow>
          io_bind (call_opt (onToolExecution ctx) (toolName, args)) (\<lambda>_.
          io_catch
            (io_bind (execute tool args (toolContext ctx)) (\<lambda>result.
             io_bind (call_opt (onToolResult ctx) (toolName, te_content result)) (\<lambda>_.
             io_return result)))
            (\<lambda>err.
               let errorMessage =
                     js ''Error executing tool '' @ toolName @ js '': '' @ err_message err
               in io_bind (call_opt (onToolResult ctx) (toolName, errorMessage)) (\<lambda>_.
                  io_return \<lparr>te_content = errorMessage, te_isError = Some True\<rparr>))))"

text \<open>The \<open>for (const toolCall of toolCalls)\<close> loop of both variants.\<close>

fun executeToolCalls :: "'w RunContext \<Rightarrow> ToolCall list \<Rightarrow> (ToolResult list, 'w) io" where
  "executeToolCalls ctx [] = io_return []"
| "executeToolCalls ctx (toolCall # rest) =
     io_bind (executeTool ctx (tc_name toolCall) (tc_arguments toolCall)) (\<lambda>result.
     io_bind (executeToolCalls ctx rest) (\<lambda>toolResults.
     io_return (\<lparr>toolCallId = tc_id toolCall, tr_content = te_content result,
                  tr_isError = te_isError result\<rparr> # toolResults)))"

section \<open>runner.ts: the tool-calling loops\<close>

text \<open>The local variables of a turn that the loop updates.\<close>

record LoopState =
  totalInputTokens :: nat
  totalOutputTokens :: nat
  newMessages :: "Message list"
  finalResponse :: js_string

datatype 'a flow = Continue 'a | Break 'a

text \<open>
  Both variants have the frame
  \<open>while (iterations < MAX_TOOL_ITERATIONS) { iterations++; ... }\<close>; the body either
  throws, ends with \<open>break\<close> or reaches its end. The result holds the final value of
  \<open>iterations\<close> beside the other locals.
\<close>

function while_iterations ::
  "(LoopState \<Rightarrow> (LoopState flow, 'w) io) \<Rightarrow> nat \<Rightarrow> LoopState \<Rightarrow> (nat \<times> LoopState, 'w) io" where
  "while_iterations body iterations st w =
     (if iterations < MAX_TOOL_ITERATIONS then
        (case body st w of
           (Inl e, w') \<Rightarrow> (Inl e, w')
         | (Inr (Break st'), w') \<Rightarrow> (Inr (iterations + 1, st'), w')
         | (Inr (Continue st'), w') \<Rightarrow> while_iterations body (iterations + 1) st' w')
      else (Inr (iterations, st), w))"
  by pat_completeness auto
termination
  by (relation "measure (\<lambda>(body, iterations, st, w). MAX_TOOL_ITERATIONS - iterations)") auto

definition build_request :: "'w RunContext \<Rightarrow> js_string \<Rightarrow> Message list \<Rightarrow> Request" where
  "build_request ctx systemPrompt msgs =
     \<lparr>rq_model = rc_model ctx, rq_system = systemPrompt, rq_messages = msgs,
      rq_tools = (if tools ctx \<noteq> [] then Some (map name (tools ctx)) else None)\<rparr>"

text \<open>The \<open>tool_use\<close> blocks of the final message, in order.\<close>

fun tool_uses :: "ContentBlock list \<Rightarrow> ToolCall list" where
  "tool_uses [] = []"
| "tool_uses (ToolUseBlock i n input # blocks) =
     \<lparr>tc_id = i, tc_name = n, tc_arguments = input\<rparr> # tool_uses blocks"
| "tool_uses (_ # blocks) = tool_uses blocks"

definition assistant_message :: "js_string \<Rightarrow> ToolCall list \<Rightarrow> Message" where
  "assistant_message currentText calls =
     \<lparr>role = Assistant, content = currentText,
      toolCalls = (if calls \<noteq> [] then Some calls else None), toolResults = None\<rparr>"

definition tool_results_message :: "ToolResult list \<Rightarrow> Message" where
  "tool_results_message results =
     \<lparr>role = User, content = [], toolCalls = None, toolResults = Some results\<rparr>"

definition type_error :: error where
  "type_error = Error (js ''TypeError'')"

text \<open>One iteration of the loop of \<open>runAnthropicAgentTurn\<close> (lines 678-757).\<close>

definition anthropic_iteration ::
  "'w RunContext \<Rightarrow> js_string \<Rightarrow> Message list \<Rightarrow> LoopState \<Rightarrow> (LoopState flow, 'w) io" where
  "anthropic_iteration ctx systemPrompt msgs st =
     (case client ctx of
        OpenAISDK _ \<Rightarrow> io_throw type_error
      | AnthropicSDK stream_final \<Rightarrow>
          io_bind (stream_final (build_request ctx systemPrompt (msgs @ newMessages st))
                     (onPartialReply ctx)) (\<lambda>final.
          let currentText = concat (text_events final);
              st1 = st\<lparr>totalInputTokens := totalInputTokens st + input_tokens final,
                       totalOutputTokens := totalOutputTokens st + output_tokens final\<rparr>;
              calls = tool_uses (final_content final);
              st2 = st1\<lparr>newMessages := newMessages st1 @ [assistant_message currentText calls]\<rparr>
          in if calls = [] then io_return (Break (st2\<lparr>finalResponse := currentText\<rparr>))
             else
               io_bind (executeToolCalls ctx calls) (\<lambda>results.
               let st3 = st2\<lparr>newMessages := newMessages st2 @ [tool_results_message results]\<rparr>
               in if stop_reason final = Some (js ''end_turn'')
                  then io_return (Break (st3\<lparr>finalResponse := currentText\<rparr>))
                  else io_return (Continue st3))))"

text \<open>
  \<open>tc.arguments ? JSON.parse(tc.arguments) : {}\<close> over the accumulated calls; the first
  failing parse throws. \<open>JSON.parse\<close> is a parameter.
\<close>

fun parseToolCalls ::
  "(js_string \<Rightarrow> error + json) \<Rightarrow> RawToolCall list \<Rightarrow> error + ToolCall list" where
  "parseToolCalls JSON_parse [] = Inr []"
| "parseToolCalls JSON_parse (tc # rest) =
     (case (if raw_arguments tc \<noteq> [] then JSON_parse (raw_arguments tc) else Inr (JObject [])) of
        Inl e \<Rightarrow> Inl e
      | Inr args \<Rightarrow>
          (case parseToolCalls JSON_parse rest of
             Inl e \<Rightarrow> Inl e
           | Inr parsed \<Rightarrow>
               Inr (\<lparr>tc_id = raw_id tc, tc_name = raw_name tc, tc_arguments = args\<rparr> # parsed)))"

definition io_of_sum :: "error + 'a \<Rightarrow> ('a, 'w) io" where
  "io_of_sum r = (\<lambda>w. (r, w))"

text \<open>One iteration of the loop of \<open>runOpenAIAgentTurn\<close> (lines 546-643).\<close>

definition openai_iteration ::
  "(js_string \<Rightarrow> error + json) \<Rightarrow> 'w RunContext \<Rightarrow> js_string \<Rightarrow> Message list \<Rightarrow> LoopState
     \<Rightarrow> (LoopState flow, 'w) io" where
  "openai_iteration JSON_parse ctx systemPrompt msgs st =
     (case client ctx of
        AnthropicSDK _ \<Rightarrow> io_throw type_error
      | OpenAISDK create_and_read \<Rightarrow>
          io_bind (create_and_read (build_request ctx systemPrompt (msgs @ newMessages st))
                     (onPartialReply ctx)) (\<lambda>stream.
          let currentText = streamed_text stream;
              st1 = st\<lparr>totalInputTokens := totalInputTokens st + prompt_tokens stream,
                       totalOutputTokens := totalOutputTokens st + completion_tokens stream\<rparr>
          in io_bind (io_of_sum (parseToolCalls JSON_parse (streamed_toolCalls stream)))
               (\<lambda>parsedToolCalls.
          let st2 = st1\<lparr>newMessages :=
                         newMessages st1 @ [assistant_message currentText parsedToolCalls]\<rparr>
          in if parsedToolCalls = [] then io_return (Break (st2\<lparr>finalResponse := currentText\<rparr>))
             else
               io_bind (executeToolCalls ctx parsedToolCalls) (\<lambda>results.
               io_return (Continue
                 (st2\<lparr>newMessages := newMessages st2 @ [tool_results_message results]\<rparr>))))))"

record TurnResult =
  turn_response :: js_string
  turn_newMessages :: "Message list"
  turn_usage :: Usage

definition initial_loop_state :: LoopState where
  "initial_loop_state =
     \<lparr>totalInputTokens = 0, totalOutputTokens = 0, newMessages = [], finalResponse = []\<rparr>"

definition turn_result :: "nat \<times> LoopState \<Rightarrow> TurnResult" where
  "turn_result r =
     (case r of (iterations, st) \<Rightarrow>
        \<lparr>turn_response = finalResponse st, turn_newMessages = newMessages st,
         turn_usage = \<lparr>inputTokens = totalInputTokens st, outputTokens = totalOutputTokens st\<rparr>\<rparr>)"

definition runAnthropicAgentTurn ::
  "'w RunContext \<Rightarrow> js_string \<Rightarrow> Message list \<Rightarrow> (TurnResult, 'w) io" where
  "runAnthropicAgentTurn ctx systemPrompt msgs =
     io_bind (while_iterations (anthropic_iteration ctx systemPrompt msgs) 0 initial_loop_state)
       (\<lambda>r. io_return (turn_result r))"

definition runOpenAIAgentTurn ::
  "(js_string \<Rightarrow> error + json) \<Rightarrow> 'w RunContext \<Rightarrow> js_string \<Rightarrow> Message list
     \<Rightarrow> (TurnResult, 'w) io" where
  "runOpenAIAgentTurn JSON_parse ctx systemPrompt msgs =
     io_bind (while_iterations (openai_iteration JSON_parse ctx systemPrompt msgs) 0
                initial_loop_state)
       (\<lambda>r. io_return (turn_result r))"

section \<open>runner.ts: \<open>runAgent\<close>\<close>

record Metadata =
  createdAt :: js_string
  updatedAt :: js_string
  md_model :: "js_string option"
  md_provider :: "Provider option"

record SessionData =
  sd_sessionId :: js_string
  sd_messages :: "Message list"
  metadata :: Metadata

record BedrockConfig =
  region :: "js_string option"
  accessKeyId :: "js_string option"
  secretAccessKey :: "js_string option"
  sessionToken :: "js_string option"
  profile :: "js_string option"

record 'w AgentRunParams =
  p_sessionId :: js_string
  p_prompt :: js_string
  p_sessionFile :: "js_string option"
  p_workspaceDir :: js_string
  p_model :: "js_string option"
  p_provider :: "Provider option"
  p_apiKey :: "js_string option"
  p_bedrockConfig :: "BedrockConfig option"
  p_tools :: "'w Tool list option"
  p_onPartialReply :: "'w observer"
  p_onToolExecution :: "(js_string \<times> json \<Rightarrow> (unit, 'w) io) option"
  p_onToolResult :: "(js_string \<times> js_string \<Rightarrow> (unit, 'w) io) option"
  p_abortSignal :: "nat option"

text \<open>
  What \<open>runAgent\<close> uses from outside: the constructors of the SDK clients (they read the
  environment and may throw), \<open>path.join\<close>, \<open>JSON.parse\<close>, the clock
  (\<open>new Date().toISOString()\<close>), the file operations \<open>loadSession\<close> and \<open>saveSession\<close>,
  the default tools, \<open>loadContextFiles\<close> (it catches every failure of its reads) and
  \<open>buildSystemPrompt\<close>.
\<close>

type_synonym context_files = "(js_string \<times> js_string) list"

record 'w Env =
  path_join :: "js_string \<Rightarrow> js_string \<Rightarrow> js_string"
  JSON_parse :: "js_string \<Rightarrow> error + json"
  new_Anthropic ::
    "js_string option \<Rightarrow> (Request \<Rightarrow> 'w observer \<Rightarrow> (AnthropicFinal, 'w) io, 'w) io"
  new_AnthropicBedrock ::
    "BedrockConfig option \<Rightarrow> (Request \<Rightarrow> 'w observer \<Rightarrow> (AnthropicFinal, 'w) io, 'w) io"
  new_OpenAI ::
    "js_string option \<Rightarrow> (Request \<Rightarrow> 'w observer \<Rightarrow> (OpenAIStream, 'w) io, 'w) io"
  toISOString_now :: "'w \<Rightarrow> js_string \<times> 'w"
  loadSession :: "js_string \<Rightarrow> (SessionData option, 'w) io"
  saveSession :: "js_string \<Rightarrow> SessionData \<Rightarrow> (unit, 'w) io"
  createCodingTools :: "'w Tool list"
  loadContextFiles :: "js_string \<Rightarrow> 'w \<Rightarrow> context_files \<times> 'w"
  buildSystemPrompt :: "js_string \<Rightarrow> js_string list \<Rightarrow> context_files \<Rightarrow> js_string \<Rightarrow> js_string"

text \<open>\<open>String.prototype.includes\<close>\<close>

fun js_includes :: "js_string \<Rightarrow> js_string \<Rightarrow> bool" where
  "js_includes [] sub = (sub = [])"
| "js_includes (c # s) sub = (take (length sub) (c # s) = sub \<or> js_includes s sub)"

definition provider_name :: "Provider \<Rightarrow> js_string" where
  "provider_name p = (case p of Anthropic \<Rightarrow> js ''anthropic'' | OpenAI \<Rightarrow> js ''openai''
                      | Bedrock \<Rightarrow> js ''bedrock'')"

definition DEFAULT_MODELS :: "Provider \<Rightarrow> js_string" where
  "DEFAULT_MODELS p = (case p of
       Anthropic \<Rightarrow> js ''claude-sonnet-4-20250514''
     | OpenAI \<Rightarrow> js ''gpt-4o''
     | Bedrock \<Rightarrow> js ''us.anthropic.claude-sonnet-4-20250514-v1:0'')"

definition BEDROCK_MODEL_MAP :: "(js_string \<times> js_string) list" where
  "BEDROCK_MODEL_MAP =
     [(js ''claude-sonnet-4'', js ''us.anthropic.claude-sonnet-4-20250514-v1:0''),
      (js ''claude-opus-4'', js ''us.anthropic.claude-opus-4-20250514-v1:0''),
      (js ''claude-3.5-sonnet'', js ''us.anthropic.claude-3-5-sonnet-20241022-v2:0''),
      (js ''claude-3.5-haiku'', js ''us.anthropic.claude-3-5-haiku-20241022-v1:0''),
      (js ''claude-3-opus'', js ''us.anthropic.claude-3-opus-20240229-v1:0''),
      (js ''claude-3-sonnet'', js ''us.anthropic.claude-3-sonnet-20240229-v1:0''),
      (js ''claude-3-haiku'', js ''us.anthropic.claude-3-haiku-20240307-v1:0'')]"

text \<open>
  \<open>resolveModel\<close> (lines 354-375). \<open>!model\<close> holds for \<open>undefined\<close> and for the empty
  string. The lookup \<open>BEDROCK_MODEL_MAP[model]\<close> is modelled on the table's own keys
  (a name inherited from \<open>Object.prototype\<close> is not a model name).
\<close>

definition resolveModel :: "js_string option \<Rightarrow> Provider \<Rightarrow> js_string" where
  "resolveModel model provider =
     (case model of
        None \<Rightarrow> DEFAULT_MODELS provider
      | Some m \<Rightarrow>
          if m = [] then DEFAULT_MODELS provider
          else if provider = Bedrock then
            (if js_includes m (js ''anthropic.claude'') then m
             else (case map_of BEDROCK_MODEL_MAP m of Some mapped \<Rightarrow> mapped | None \<Rightarrow> m))
          else m)"

text \<open>\<open>createClient\<close> (lines 310-349)\<close>

definition createClient ::
  "'w Env \<Rightarrow> Provider \<Rightarrow> js_string option \<Rightarrow> BedrockConfig option \<Rightarrow> ('w LLMClient, 'w) io" where
  "createClient env provider apiKey bedrockConfig =
     (if provider = Bedrock then
        io_bind (new_AnthropicBedrock env bedrockConfig) (\<lambda>c. io_return (AnthropicSDK c))
      else if provider = OpenAI then
        io_bind (new_OpenAI env apiKey) (\<lambda>c. io_return (OpenAISDK c))
      else io_bind (new_Anthropic env apiKey) (\<lambda>c. io_return (AnthropicSDK c)))"

text \<open>\<open>createSession\<close> of session-manager.ts (lines 137-152): it reads the clock twice.\<close>

definition createSession ::
  "'w Env \<Rightarrow> js_string \<Rightarrow> js_string option \<Rightarrow> Provider option \<Rightarrow> (SessionData, 'w) io" where
  "createSession env sessionId model provider =
     io_bind (io_lift (toISOString_now env)) (\<lambda>created.
     io_bind (io_lift (toISOString_now env)) (\<lambda>updated.
     io_return \<lparr>sd_sessionId = sessionId, sd_messages = [],
                metadata = \<lparr>createdAt = created, updatedAt = updated, md_model = model,
                            md_provider = provider\<rparr>\<rparr>))"

text \<open>The \<open>catch\<close> block of \<open>runAgent\<close> (lines 871-927), on the error caught and the
  value of \<open>session.messages\<close> at that moment.\<close>

definition error_result ::
  "Provider \<Rightarrow> js_string \<Rightarrow> Message list \<Rightarrow> error \<Rightarrow> AgentRunResult" where
  "error_result provider model session_messages err =
     (let msg = err_message err;
          failed = (\<lambda>k m. \<lparr>res_response = [], res_messages = session_messages,
                            res_usage = None, res_error = Some \<lparr>kind = k, message = m\<rparr>\<rparr>)
      in if js_includes msg (js ''context_length_exceeded'') \<or> js_includes msg (js ''too many tokens'')
         then failed (js ''context_overflow'')
                (js ''Context length exceeded. Try starting a new session or using a smaller prompt.'')
         else if js_includes msg (js ''rate_limit'') \<or> js_includes msg (js ''ThrottlingException'')
         then failed (js ''rate_limit'') (js ''Rate limit exceeded. Please wait before trying again.'')
         else if js_includes msg (js ''AccessDeniedException'')
                 \<or> js_includes msg (js ''UnauthorizedException'')
         then failed (js ''auth_error'')
                (js ''Authentication failed for '' @ provider_name provider
                   @ js ''. Check your credentials.'')
         else if js_includes msg (js ''ResourceNotFoundException'')
                 \<or> js_includes msg (js ''model not found'')
         then failed (js ''model_not_found'')
                (js ''Model \"'' @ model @ js ''\" not found or not enabled for ''
                   @ provider_name provider @ js ''.'')
         else failed (js ''unknown'') msg)"

text \<open>
  \<open>runAgent\<close> (lines 780-928), in the order of the source: the model and the client,
  the session file, the session (loaded or created), the tools, the system prompt, the
  limited history with the user message, the run context, and the \<open>try\<close> block.
  The \<open>try\<close> block has two places that can throw: the turn, before \<open>session.messages\<close>
  is assigned, and \<open>saveSession\<close>, after it; the \<open>catch\<close> block reads
  \<open>session.messages\<close> as it is then. A falsy \<open>params.sessionFile\<close> is \<open>undefined\<close> or
  the empty string.
\<close>

definition effective_provider :: "'w AgentRunParams \<Rightarrow> Provider" where
  "effective_provider params = (case p_provider params of None \<Rightarrow> Anthropic | Some p \<Rightarrow> p)"

definition session_file :: "'w Env \<Rightarrow> 'w AgentRunParams \<Rightarrow> js_string" where
  "session_file env params =
     (let sessionsDir = p_workspaceDir params @ js ''/.agent/sessions'';
          resolved = resolveSessionFile (path_join env) sessionsDir (p_sessionId params)
      in case p_sessionFile params of
           None \<Rightarrow> resolved
         | Some f \<Rightarrow> if f = [] then resolved else f)"

definition user_message :: "js_string \<Rightarrow> Message" where
  "user_message prompt =
     \<lparr>role = User, content = prompt, toolCalls = None, toolResults = None\<rparr>"

definition run_context :: "'w Env \<Rightarrow> 'w AgentRunParams \<Rightarrow> 'w LLMClient \<Rightarrow> 'w RunContext" where
  "run_context env params cl =
     \<lparr>client = cl,
      tools = (case p_tools params of Some ts \<Rightarrow> ts | None \<Rightarrow> createCodingTools env),
      toolContext = \<lparr>workspaceDir = p_workspaceDir params, abortSignal = p_abortSignal params\<rparr>,
      rc_sessionId = p_sessionId params,
      rc_model = resolveModel (p_model params) (effective_provider params),
      rc_provider = effective_provider params,
      onPartialReply = p_onPartialReply params,
      onToolExecution = p_onToolExecution params,
      onToolResult = p_onToolResult params\<rparr>"

text \<open>Lines 849-852: the turn, on the limited history followed by the user message.\<close>

definition dispatch_turn ::
  "'w Env \<Rightarrow> 'w AgentRunParams \<Rightarrow> 'w LLMClient \<Rightarrow> SessionData \<Rightarrow> context_files
     \<Rightarrow> (TurnResult, 'w) io" where
  "dispatch_turn env params cl session contextFiles =
     (let ctx = run_context env params cl;
          systemPrompt = buildSystemPrompt env (p_workspaceDir params) (map name (tools ctx))
                           contextFiles (p_sessionId params);
          limitedHistory = limitHistoryTurns (sd_messages session) MAX_HISTORY_TURNS;
          msgs = limitedHistory @ [user_message (p_prompt params)]
      in if effective_provider params = OpenAI
         then runOpenAIAgentTurn (JSON_parse env) ctx systemPrompt msgs
         else runAnthropicAgentTurn ctx systemPrompt msgs)"

text \<open>Lines 854-870: the session is updated, saved and returned.\<close>

definition updated_session ::
  "'w AgentRunParams \<Rightarrow> SessionData \<Rightarrow> TurnResult \<Rightarrow> js_string \<Rightarrow> SessionData" where
  "updated_session params session result now =
     (let limitedHistory = limitHistoryTurns (sd_messages session) MAX_HISTORY_TURNS
      in session
           \<lparr>sd_messages := limitedHistory @ [user_message (p_prompt params)]
                             @ turn_newMessages result,
            metadata := (metadata session)
                          \<lparr>updatedAt := now,
                           md_model := Some (resolveModel (p_model params)
                                               (effective_provider params))\<rparr>\<rparr>)"

definition runAgent :: "'w Env \<Rightarrow> 'w AgentRunParams \<Rightarrow> (AgentRunResult, 'w) io" where
  "runAgent env params =
     (let provider = effective_provider params;
          model = resolveModel (p_model params) provider
      in io_bind (createClient env provider (p_apiKey params) (p_bedrockConfig params)) (\<lambda>cl.
         io_bind (loadSession env (session_file env params)) (\<lambda>loaded.
         io_bind (case loaded of
                    Some s \<Rightarrow> io_return s
                  | None \<Rightarrow> createSession env (p_sessionId params) (Some model) (Some provider))
           (\<lambda>session.
         io_bind (io_lift (loadContextFiles env (p_workspaceDir params))) (\<lambda>contextFiles.
         io_bind (io_try (dispatch_turn env params cl session contextFiles)) (\<lambda>outcome.
           case outcome of
             Inl err \<Rightarrow> io_return (error_result provider model (sd_messages session) err)
           | Inr result \<Rightarrow>
               io_bind (io_lift (toISOString_now env)) (\<lambda>now.
               let session' = updated_session params session result now
               in io_catch
                    (io_bind (saveSession env (session_file env params) session') (\<lambda>_.
                     io_return \<lparr>res_response = turn_response result,
                                res_messages = sd_messages session',
                                res_usage = Some (turn_usage result),
                                res_error = None\<rparr>))
                    (\<lambda>err. io_return
                       (error_result provider model (sd_messages session') err)))))))))"

section \<open>Test doubles\<close>

text \<open>
  Concrete backends, tools and contexts on which the theorems below are evaluated. The
  world is a natural number that counts the backend calls made so far.
\<close>

definition busy_final :: AnthropicFinal where
  "busy_final =
     \<lparr>text_events = [js ''work'', js ''ing''],
      final_content = [TextBlock (js ''working''),
                       ToolUseBlock (js ''call_1'') (js ''nope'') (JObject [])],
      stop_reason = Some (js ''tool_use''), input_tokens = 10, output_tokens = 5\<rparr>"


definition busy_stream :: OpenAIStream where
  "busy_stream =
     \<lparr>streamed_text = js ''working'',
      streamed_toolCalls = [\<lparr>raw_id = js ''call_1'', raw_name = js ''nope'', raw_arguments = []\<rparr>],
      prompt_tokens = 10, completion_tokens = 5, finish_reason = Some (js ''tool_calls'')\<rparr>"

definition busy_openai :: "Request \<Rightarrow> nat observer \<Rightarrow> (OpenAIStream, nat) io" where
  "busy_openai rq cb = (\<lambda>w. (Inr busy_stream, Suc w))"

definition echo_tool :: "nat Tool" where
  "echo_tool =
     \<lparr>name = js ''echo'',
      execute = (\<lambda>args tctx. io_return \<lparr>te_content = js ''ok'', te_isError = None\<rparr>)\<rparr>"

definition stub_context :: "nat LLMClient \<Rightarrow> nat RunContext" where
  "stub_context cl =
     \<lparr>client = cl, tools = [echo_tool],
      toolContext = \<lparr>workspaceDir = js ''/ws'', abortSignal = None\<rparr>,
      rc_sessionId = js ''s1'', rc_model = js ''m'', rc_provider = Anthropic,
      onPartialReply = None, onToolExecution = None, onToolResult = None\<rparr>"

definition stub_JSON_parse :: "js_string \<Rightarrow> error + json" where
  "stub_JSON_parse s = Inr (JString s)"

section \<open>Vocabulary of the statements\<close>

text \<open>A tool name is registered when \<open>ctx.tools.find((t) => t.name === toolName)\<close> finds
  a tool.\<close>

definition registered :: "'w RunContext \<Rightarrow> js_string \<Rightarrow> bool" where
  "registered ctx toolName = (find (\<lambda>t. name t = toolName) (tools ctx) \<noteq> None)"

text \<open>The result recorded for a call of an unregistered tool.\<close>

definition unknown_tool_result :: "ToolCall \<Rightarrow> ToolResult" where
  "unknown_tool_result tc =
     \<lparr>toolCallId = tc_id tc,
      tr_content = js ''Error: Unknown tool \"'' @ tc_name tc @ js ''\"'',
      tr_isError = Some True\<rparr>"

definition nope_call :: ToolCall where
  "nope_call = \<lparr>tc_id = js ''call_1'', tc_name = js ''nope'', tc_arguments = JObject []\<rparr>"

text \<open>The step that every iteration makes on the busy backends.\<close>

definition busy_step :: "LoopState \<Rightarrow> LoopState" where
  "busy_step st =
     st\<lparr>totalInputTokens := totalInputTokens st + 10,
        totalOutputTokens := totalOutputTokens st + 5,
        newMessages := newMessages st @
          [assistant_message (js ''working'') [nope_call],
           tool_results_message [unknown_tool_result nope_call]]\<rparr>"

text \<open>
  An OpenAI-compatible backend whose first stream carries a tool call together with the
  finish reason \<open>stop\<close>, and whose later streams carry text only.
\<close>

definition stop_stream_1 :: OpenAIStream where
  "stop_stream_1 =
     \<lparr>streamed_text = js ''done'',
      streamed_toolCalls = [\<lparr>raw_id = js ''call_1'', raw_name = js ''echo'', raw_arguments = []\<rparr>],
      prompt_tokens = 10, completion_tokens = 5, finish_reason = Some (js ''stop'')\<rparr>"

definition stop_stream_2 :: OpenAIStream where
  "stop_stream_2 =
     \<lparr>streamed_text = js ''again'', streamed_toolCalls = [],
      prompt_tokens = 10, completion_tokens = 5, finish_reason = Some (js ''stop'')\<rparr>"

definition stopping_openai :: "Request \<Rightarrow> nat observer \<Rightarrow> (OpenAIStream, nat) io" where
  "stopping_openai rq cb = (\<lambda>w. (Inr (if w = 0 then stop_stream_1 else stop_stream_2), Suc w))"

definition echo_call :: ToolCall where
  "echo_call = \<lparr>tc_id = js ''call_1'', tc_name = js ''echo'', tc_arguments = JObject []\<rparr>"

definition echo_result :: ToolResult where
  "echo_result = \<lparr>toolCallId = js ''call_1'', tr_content = js ''ok'', tr_isError = None\<rparr>"

text \<open>
  An environment around \<open>runAgent\<close>: it is given the Anthropic backend; the session file
  holds one earlier message; saving succeeds.
\<close>

definition stored_message :: Message where
  "stored_message =
     \<lparr>role = User, content = js ''earlier'', toolCalls = None, toolResults = None\<rparr>"

definition stored_session :: SessionData where
  "stored_session =
     \<lparr>sd_sessionId = js ''s1'', sd_messages = [stored_message],
      metadata = \<lparr>createdAt = js ''2026-01-01T00:00:00.000Z'',
                  updatedAt = js ''2026-01-01T00:00:00.000Z'',
                  md_model = None, md_provider = None\<rparr>\<rparr>"

definition stub_env :: "(Request \<Rightarrow> nat observer \<Rightarrow> (AnthropicFinal, nat) io) \<Rightarrow> nat Env" where
  "stub_env api =
     \<lparr>path_join = (\<lambda>dir file. dir @ js ''/'' @ file),
      JSON_parse = stub_JSON_parse,
      new_Anthropic = (\<lambda>key. io_return api),
      new_AnthropicBedrock = (\<lambda>config. io_return api),
      new_OpenAI = (\<lambda>key. io_return busy_openai),
      toISOString_now = (\<lambda>w. (js ''2026-01-02T00:00:00.000Z'', w)),
      loadSession = (\<lambda>file. io_return (Some stored_session)),
      saveSession = (\<lambda>file session. io_return ()),
      createCodingTools = [echo_tool],
      loadContextFiles = (\<lambda>dir w. ([], w)),
      buildSystemPrompt = (\<lambda>dir names files agent. js ''system'')\<rparr>"

definition stub_params :: "nat AgentRunParams" where
  "stub_params =
     \<lparr>p_sessionId = js ''s1'', p_prompt = js ''hello'', p_sessionFile = None,
      p_workspaceDir = js ''/ws'', p_model = None, p_provider = None, p_apiKey = None,
      p_bedrockConfig = None, p_tools = None, p_onPartialReply = None,
      p_onToolExecution = None, p_onToolResult = None, p_abortSignal = None\<rparr>"

text \<open>A backend whose first call asks for a tool and whose later calls fail.\<close>

definition failing_anthropic :: "Request \<Rightarrow> nat observer \<Rightarrow> (AnthropicFinal, nat) io" where
  "failing_anthropic rq cb =
     (\<lambda>w. if w = 0 then (Inr busy_final, Suc w)
          else (Inl (Error (js ''429 rate_limit_error'')), Suc w))"

text \<open>A backend that answers with text and ends the turn.\<close>

definition polite_final :: AnthropicFinal where
  "polite_final =
     \<lparr>text_events = [js ''hi''], final_content = [TextBlock (js ''hi'')],
      stop_reason = Some (js ''end_turn''), input_tokens = 10, output_tokens = 5\<rparr>"

definition polite_anthropic :: "Request \<Rightarrow> nat observer \<Rightarrow> (AnthropicFinal, nat) io" where
  "polite_anthropic rq cb = (\<lambda>w. (Inr polite_final, Suc w))"

text \<open>The kinds of the error taxonomy.\<close>

definition error_kinds :: "js_string list" where
  "error_kinds = [js ''context_overflow'', js ''rate_limit'', js ''auth_error'',
                  js ''model_not_found'', js ''unknown'']"

text \<open>The backend call of a client, made with a request in a world, throws.\<close>

definition backend_fails ::
  "'w LLMClient \<Rightarrow> Request \<Rightarrow> 'w observer \<Rightarrow> 'w \<Rightarrow> error \<Rightarrow> 'w \<Rightarrow> bool" where
  "backend_fails cl rq cb w err w' =
     (case cl of
        AnthropicSDK api \<Rightarrow> api rq cb w = (Inl err, w')
      | OpenAISDK api \<Rightarrow> api rq cb w = (Inl err, w'))"

section \<open>daemon.ts: the active runs\<close>

text \<open>
  \<open>Date.now()\<close> is an integer number of milliseconds; in a template literal it is
  written in decimal, with a minus sign when negative.
\<close>

definition digit :: "nat \<Rightarrow> 16 word" where
  "digit d = 0x30 + of_nat d"

function digits :: "nat \<Rightarrow> js_string" where
  "digits n = (if n < 10 then [digit n] else digits (n div 10) @ [digit (n mod 10)])"
  by pat_completeness auto
termination
  by (relation "measure id") auto

definition number_to_string :: "int \<Rightarrow> js_string" where
  "number_to_string i = (if i < 0 then 0x2D # digits (nat (- i)) else digits (nat i))"

text \<open>Line 112: \<open>`${sessionId}:${Date.now()}`\<close>\<close>

definition run_id :: "js_string \<Rightarrow> int \<Rightarrow> js_string" where
  "run_id sessionId now = sessionId @ js '':'' @ number_to_string now"

text \<open>
  A JavaScript \<open>Map\<close> keeps its entries in insertion order: \<open>set\<close> replaces the value of
  a key in place or appends a new entry, \<open>delete\<close> removes the entry of a key.
\<close>

fun map_set :: "'k \<Rightarrow> 'v \<Rightarrow> ('k \<times> 'v) list \<Rightarrow> ('k \<times> 'v) list" where
  "map_set k v [] = [(k, v)]"
| "map_set k v ((k', v') # m) = (if k' = k then (k, v) # m else (k', v') # map_set k v m)"

definition map_delete :: "'k \<Rightarrow> ('k \<times> 'v) list \<Rightarrow> ('k \<times> 'v) list" where
  "map_delete k m = filter (\<lambda>entry. fst entry \<noteq> k) m"

text \<open>
  An \<open>AbortController\<close> is an object: the model gives each one a handle and keeps the
  handles on which \<open>abort()\<close> was called.
\<close>

record ActiveRun =
  ar_sessionId :: js_string
  startedAt :: int
  abortController :: nat
  ar_provider :: Provider

record 'w DaemonConfig =
  dc_workspaceDir :: js_string
  defaultModel :: "js_string option"
  dc_provider :: "Provider option"
  dc_apiKey :: "js_string option"
  dc_bedrockConfig :: "BedrockConfig option"
  dc_tools :: "'w Tool list option"

record 'w RunOptions =
  ro_sessionId :: js_string
  ro_prompt :: js_string
  ro_model :: "js_string option"
  ro_provider :: "Provider option"
  ro_onPartialReply :: "'w observer"
  ro_onToolExecution :: "(js_string \<times> json \<Rightarrow> (unit, 'w) io) option"
  ro_onToolResult :: "(js_string \<times> js_string \<Rightarrow> (unit, 'w) io) option"

datatype DaemonEvent =
    RunStart js_string js_string Provider
  | RunEnd js_string js_string AgentRunResult
  | RunError js_string js_string error
  | RunCancelled js_string js_string

text \<open>
  The daemon: its configuration, the map of the active runs, the abort controllers, and
  the listeners subscribed to its events (\<open>emit\<close> calls them in turn and passes on what
  one of them throws).
\<close>

record 'w Daemon =
  config :: "'w DaemonConfig"
  activeRuns :: "(js_string \<times> ActiveRun) list"
  next_controller :: nat
  aborted :: "nat list"
  emit :: "DaemonEvent \<Rightarrow> (unit, 'w) io"

text \<open>
  The task that \<open>run\<close> puts in the session lane (lines 107-149) suspends once, at
  \<open>await runAgent(params)\<close>. \<open>run_begin\<close> is the part before it: the controller, the run
  id, the entry in the map and the event \<open>run:start\<close>, which is emitted before the \<open>try\<close>
  block; when a listener of that event throws the task rejects with the entry still in
  the map. Otherwise the parameters for \<open>runAgent\<close> are built. The clock is read for the
  run id and again for \<open>startedAt\<close>.
\<close>

definition effective_options :: "'w Daemon \<Rightarrow> 'w RunOptions \<Rightarrow> Provider \<times> js_string option" where
  "effective_options d options =
     (let effectiveProvider =
            (case ro_provider options of
               Some p \<Rightarrow> p
             | None \<Rightarrow> (case dc_provider (config d) of Some p \<Rightarrow> p | None \<Rightarrow> Anthropic));
          effectiveModel =
            (case ro_model options of
               None \<Rightarrow> defaultModel (config d)
             | Some m \<Rightarrow> if m = [] then defaultModel (config d) else Some m)
      in (effectiveProvider, effectiveModel))"

definition run_begin ::
  "('w \<Rightarrow> int \<times> 'w) \<Rightarrow> 'w Daemon \<Rightarrow> 'w RunOptions \<Rightarrow> 'w
     \<Rightarrow> (error + js_string \<times> 'w AgentRunParams) \<times> 'w Daemon \<times> 'w" where
  "run_begin Date_now d options w =
     (case effective_options d options of (effectiveProvider, effectiveModel) \<Rightarrow>
      let sessionId = ro_sessionId options;
          controller = next_controller d
      in case Date_now w of (now, w1) \<Rightarrow>
         let runId = run_id sessionId now
         in case Date_now w1 of (started, w2) \<Rightarrow>
            let d1 = d\<lparr>next_controller := Suc controller,
                       activeRuns := map_set runId
                         \<lparr>ar_sessionId = sessionId, startedAt = started,
                          abortController = controller, ar_provider = effectiveProvider\<rparr>
                         (activeRuns d)\<rparr>
            in case emit d (RunStart runId sessionId effectiveProvider) w2 of
                 (Inl e, w3) \<Rightarrow> (Inl e, d1, w3)
               | (Inr u, w3) \<Rightarrow>
                   (Inr (runId,
                      \<lparr>p_sessionId = sessionId, p_prompt = ro_prompt options,
                       p_sessionFile = None, p_workspaceDir = dc_workspaceDir (config d),
                       p_model = effectiveModel, p_provider = Some effectiveProvider,
                       p_apiKey = dc_apiKey (config d),
                       p_bedrockConfig = dc_bedrockConfig (config d),
                       p_tools = dc_tools (config d),
                       p_onPartialReply = ro_onPartialReply options,
                       p_onToolExecution = ro_onToolExecution options,
                       p_onToolResult = ro_onToolResult options,
                       p_abortSignal = Some controller\<rparr>), d1, w3))"

text \<open>
  \<open>run_finish\<close> is the part after \<open>runAgent\<close> has settled, on the daemon as it is then:
  the rest of the \<open>try\<close> block, the \<open>catch\<close> block (entered also when a listener of
  \<open>run:end\<close> throws) and the \<open>finally\<close> block.
\<close>

definition run_finish ::
  "'w Daemon \<Rightarrow> js_string \<Rightarrow> js_string \<Rightarrow> error + AgentRunResult \<Rightarrow> 'w
     \<Rightarrow> (error + AgentRunResult) \<times> 'w Daemon \<times> 'w" where
  "run_finish d runId sessionId outcome w =
     (let try_block =
            (case outcome of
               Inl e \<Rightarrow> io_throw e
             | Inr result \<Rightarrow>
                 io_bind (emit d (RunEnd runId sessionId result)) (\<lambda>_. io_return result));
          catch_block =
            (\<lambda>e. io_bind (emit d (RunError runId sessionId e)) (\<lambda>_. io_throw e))
      in case io_catch try_block catch_block w of
           (settled, w') \<Rightarrow>
             (settled, d\<lparr>activeRuns := map_delete runId (activeRuns d)\<rparr>, w'))"

text \<open>The task when nothing else runs while it waits for \<open>runAgent\<close>.\<close>

definition run_task ::
  "'w Env \<Rightarrow> ('w \<Rightarrow> int \<times> 'w) \<Rightarrow> 'w Daemon \<Rightarrow> 'w RunOptions \<Rightarrow> 'w
     \<Rightarrow> (error + AgentRunResult) \<times> 'w Daemon \<times> 'w" where
  "run_task env Date_now d options w =
     (case run_begin Date_now d options w of
        (Inl e, d1, w1) \<Rightarrow> (Inl e, d1, w1)
      | (Inr (runId, params), d1, w1) \<Rightarrow>
          (case runAgent env params w1 of
             (outcome, w2) \<Rightarrow> run_finish d1 runId (ro_sessionId options) outcome w2))"


text \<open>A daemon without listeners, a request, and a clock that stands still.\<close>

definition stub_daemon :: "nat Daemon" where
  "stub_daemon =
     \<lparr>config = \<lparr>dc_workspaceDir = js ''/ws'', defaultModel = None, dc_provider = None,
                dc_apiKey = None, dc_bedrockConfig = None, dc_tools = None\<rparr>,
      activeRuns = [], next_controller = 0, aborted = [],
      emit = (\<lambda>event. io_return ())\<rparr>"

definition stub_options :: "nat RunOptions" where
  "stub_options =
     \<lparr>ro_sessionId = js ''s1'', ro_prompt = js ''hello'', ro_model = None, ro_provider = None,
      ro_onPartialReply = None, ro_onToolExecution = None, ro_onToolResult = None\<rparr>"

definition frozen_clock :: "nat \<Rightarrow> int \<times> nat" where
  "frozen_clock w = (1700000000000, w)"

text \<open>The run id that \<open>run_begin\<close> allocated, when it came to invoke \<open>runAgent\<close>.\<close>

definition allocated_run_id :: "(error + js_string \<times> 'p) \<times> 'd \<Rightarrow> js_string option" where
  "allocated_run_id r = (case fst r of Inl e \<Rightarrow> None | Inr (runId, params) \<Rightarrow> Some runId)"


text \<open>The value of a decimal digit.\<close>

definition digit_value :: "16 word \<Rightarrow> nat" where
  "digit_value c = unat (c - 0x30)"

section \<open>lanes.ts\<close>

text \<open>
  An entry of a lane's queue is \<open>{task, resolve, reject}\<close>. The two functions belong to
  the promise that \<open>enqueueInLane\<close> returned to its caller; the model numbers these
  promises. Of the task it keeps what the call \<open>item.task()\<close> does: it throws at once, or
  it returns a promise that settles later (the scheduler is not called from inside that
  call).
\<close>

record Item =
  it_promise :: nat
  throws_at_once :: "error option"

record LaneState =
  queue :: "Item list"
  running :: bool

text \<open>
  What can be observed of the scheduler: a task is enqueued, \<open>item.task()\<close> is called,
  and \<open>item.resolve\<close> or \<open>item.reject\<close> is called with a value or an error.
\<close>

datatype 'v lane_event =
    Enqueued js_string Item
  | Started js_string Item
  | Settled js_string nat "error + 'v"

text \<open>
  The module state. A \<open>LaneState\<close> is an object: \<open>getLane\<close> hands out references to it,
  and \<open>processLane\<close> keeps one across its \<open>await\<close>. So the model has a store of lane
  objects, the map \<open>lanes\<close> from keys to references, and the activations of \<open>processLane\<close>
  that are suspended at \<open>await item.task()\<close>, each with its \<open>laneKey\<close>, its \<open>lane\<close> and
  its \<open>item\<close>. The trace of the observed events is kept for the statements only.
\<close>

record 'v Lanes =
  heap :: "nat \<Rightarrow> LaneState"
  next_addr :: nat
  lanes :: "js_string \<Rightarrow> nat option"
  suspended :: "(js_string \<times> nat \<times> Item) list"
  next_promise :: nat
  trace :: "'v lane_event list"

definition no_lanes :: "'v Lanes" where
  "no_lanes =
     \<lparr>heap = (\<lambda>a. \<lparr>queue = [], running = False\<rparr>), next_addr = 0, lanes = (\<lambda>k. None),
      suspended = [], next_promise = 0, trace = []\<rparr>"

text \<open>\<open>getLane\<close> (lines 32-39)\<close>

definition getLane :: "js_string \<Rightarrow> 'v Lanes \<Rightarrow> nat \<times> 'v Lanes" where
  "getLane laneKey s =
     (case lanes s laneKey of
        Some lane \<Rightarrow> (lane, s)
      | None \<Rightarrow>
          (let lane = next_addr s
           in (lane, s\<lparr>heap := (heap s)(lane := \<lparr>queue = [], running = False\<rparr>),
                       next_addr := Suc lane,
                       lanes := (lanes s)(laneKey \<mapsto> lane)\<rparr>)))"

text \<open>
  The \<open>while\<close> loop of \<open>processLane\<close> from its head, and what follows it (lines 53-69),
  up to the next suspension or the end: an item whose task throws at once is rejected
  in the \<open>catch\<close> block and the loop goes on; otherwise the activation is suspended.
\<close>

function drain :: "js_string \<Rightarrow> nat \<Rightarrow> 'v Lanes \<Rightarrow> 'v Lanes" where
  "drain laneKey lane s =
     (case queue (heap s lane) of
        [] \<Rightarrow>
          (let s1 = s\<lparr>heap := (heap s)(lane := (heap s lane)\<lparr>running := False\<rparr>)\<rparr>
           in if queue (heap s1 lane) = [] then s1\<lparr>lanes := (lanes s1)(laneKey := None)\<rparr>
              else s1)
      | item # rest \<Rightarrow>
          (let s1 = s\<lparr>heap := (heap s)(lane := (heap s lane)\<lparr>queue := rest\<rparr>),
                      trace := trace s @ [Started laneKey item]\<rparr>
           in case throws_at_once item of
                Some e \<Rightarrow>
                  drain laneKey lane
                    (s1\<lparr>trace := trace s1 @ [Settled laneKey (it_promise item) (Inl e)]\<rparr>)
              | None \<Rightarrow> s1\<lparr>suspended := suspended s1 @ [(laneKey, lane, item)]\<rparr>))"
  by pat_completeness auto
termination
  by (relation "measure (\<lambda>(laneKey, lane, s). length (queue (heap s lane)))") auto

text \<open>\<open>processLane\<close> (lines 44-70) up to its first suspension or its end.\<close>

definition processLane :: "js_string \<Rightarrow> 'v Lanes \<Rightarrow> 'v Lanes" where
  "processLane laneKey s =
     (case getLane laneKey s of (lane, s1) \<Rightarrow>
        if running (heap s1 lane) then s1
        else drain laneKey lane
               (s1\<lparr>heap := (heap s1)(lane := (heap s1 lane)\<lparr>running := True\<rparr>)\<rparr>))"

text \<open>
  \<open>enqueueInLane\<close> (lines 82-98): the executor of the new promise runs at once; the
  number of the promise is returned.
\<close>

definition enqueueInLane :: "js_string \<Rightarrow> error option \<Rightarrow> 'v Lanes \<Rightarrow> nat \<times> 'v Lanes" where
  "enqueueInLane laneKey task s =
     (let promise = next_promise s;
          item = \<lparr>it_promise = promise, throws_at_once = task\<rparr>;
          s0 = s\<lparr>next_promise := Suc promise, trace := trace s @ [Enqueued laneKey item]\<rparr>
      in case getLane laneKey s0 of (lane, s1) \<Rightarrow>
           (promise,
            processLane laneKey
              (s1\<lparr>heap := (heap s1)(lane := (heap s1 lane)
                                  \<lparr>queue := queue (heap s1 lane) @ [item]\<rparr>)\<rparr>)))"

text \<open>
  The promise that a suspended activation awaits settles, and the activation goes on
  after its \<open>await\<close>: \<open>item.resolve(result)\<close> or, in the \<open>catch\<close> block,
  \<open>item.reject(error)\<close>, then the loop again. Nothing happens when no activation waits
  for the promise.
\<close>

definition resume :: "nat \<Rightarrow> error + 'v \<Rightarrow> 'v Lanes \<Rightarrow> 'v Lanes" where
  "resume promise outcome s =
     (case find (\<lambda>frame. it_promise (snd (snd frame)) = promise) (suspended s) of
        None \<Rightarrow> s
      | Some (laneKey, lane, item) \<Rightarrow>
          drain laneKey lane
            (s\<lparr>suspended := remove1 (laneKey, lane, item) (suspended s),
               trace := trace s @ [Settled laneKey promise outcome]\<rparr>))"

text \<open>\<open>getSessionLaneKey\<close> and \<open>enqueueInSessionLane\<close> (lines 103-124)\<close>

definition getSessionLaneKey :: "js_string \<Rightarrow> js_string" where
  "getSessionLaneKey sessionId = js ''session:'' @ sessionId"

definition enqueueInSessionLane :: "js_string \<Rightarrow> error option \<Rightarrow> 'v Lanes \<Rightarrow> nat \<times> 'v Lanes" where
  "enqueueInSessionLane sessionId task s = enqueueInLane (getSessionLaneKey sessionId) task s"

text \<open>
  What happens to the scheduler from outside: a caller enqueues a task, or an awaited
  promise settles. A run is a sequence of such steps from the state without lanes.
\<close>

datatype 'v lane_action = Enqueue js_string "error option" | Settle nat "error + 'v"

fun lane_step :: "'v Lanes \<Rightarrow> 'v lane_action \<Rightarrow> 'v Lanes" where
  "lane_step s (Enqueue laneKey task) = snd (enqueueInLane laneKey task s)"
| "lane_step s (Settle promise outcome) = resume promise outcome s"

definition lane_run :: "'v lane_action list \<Rightarrow> 'v Lanes" where
  "lane_run actions = foldl lane_step no_lanes actions"

text \<open>
  Readings of a trace, for one lane key: the items enqueued under it, the items whose
  task was called, and the promises settled, each in the order of the trace.
\<close>

definition enqueued_under :: "js_string \<Rightarrow> 'v lane_event list \<Rightarrow> Item list" where
  "enqueued_under k tr =
     concat (map (\<lambda>ev. case ev of Enqueued k' item \<Rightarrow> if k' = k then [item] else []
                                | _ \<Rightarrow> []) tr)"

definition started_under :: "js_string \<Rightarrow> 'v lane_event list \<Rightarrow> Item list" where
  "started_under k tr =
     concat (map (\<lambda>ev. case ev of Started k' item \<Rightarrow> if k' = k then [item] else []
                                | _ \<Rightarrow> []) tr)"

definition settled_under :: "js_string \<Rightarrow> 'v lane_event list \<Rightarrow> nat list" where
  "settled_under k tr =
     concat (map (\<lambda>ev. case ev of Settled k' p outcome \<Rightarrow> if k' = k then [p] else []
                                | _ \<Rightarrow> []) tr)"

text \<open>What was delivered to which promise.\<close>

definition deliveries :: "'v lane_event list \<Rightarrow> (nat \<times> (error + 'v)) list" where
  "deliveries tr =
     concat (map (\<lambda>ev. case ev of Settled k p outcome \<Rightarrow> [(p, outcome)] | _ \<Rightarrow> []) tr)"

text \<open>
  The executions under one key do not overlap: reading the trace with the promise of the
  task in execution under the key (if any), a task is only started when none is in
  execution and only the task in execution is settled. The result is \<open>None\<close> when the
  trace breaks this, and otherwise the task in execution at the end.
\<close>

fun in_flight :: "js_string \<Rightarrow> nat option \<Rightarrow> 'v lane_event list \<Rightarrow> nat option option" where
  "in_flight k cur [] = Some cur"
| "in_flight k cur (Enqueued k' item # tr) = in_flight k cur tr"
| "in_flight k cur (Started k' item # tr) =
     (if k' = k
      then (case cur of None \<Rightarrow> in_flight k (Some (it_promise item)) tr | Some p \<Rightarrow> None)
      else in_flight k cur tr)"
| "in_flight k cur (Settled k' p outcome # tr) =
     (if k' = k
      then (if cur = Some p then in_flight k None tr else None)
      else in_flight k cur tr)"

text \<open>
  An outcome delivered to a promise is its own: the promise awaited for its task settled
  with it, or its task threw the error at once.
\<close>

definition own_outcome ::
  "'v lane_action list \<Rightarrow> 'v lane_event list \<Rightarrow> nat \<times> (error + 'v) \<Rightarrow> bool" where
  "own_outcome actions tr delivery =
     (case delivery of (p, outcome) \<Rightarrow>
        Settle p outcome \<in> set actions
        \<or> list_ex (\<lambda>ev. case ev of
                Started k item \<Rightarrow>
                  it_promise item = p
                  \<and> (case throws_at_once item of Some e \<Rightarrow> outcome = Inl e | None \<Rightarrow> False)
              | _ \<Rightarrow> False) tr)"

text \<open>The scheduler without its trace.\<close>

definition forget_trace :: "'v Lanes \<Rightarrow> 'v Lanes" where
  "forget_trace s = s\<lparr>trace := []\<rparr>"

text \<open>
  The invariant of the scheduler. For a key without a lane no activation is suspended,
  every task enqueued under the key has been started and none is in execution. For a
  key with a lane, the lane is running, exactly one activation is suspended for the key,
  it holds this lane and the task in execution, and the tasks enqueued under the key are
  the started ones followed by the queue. No lane object is shared by two keys.
\<close>

definition frames_of :: "js_string \<Rightarrow> 'v Lanes \<Rightarrow> (js_string \<times> nat \<times> Item) list" where
  "frames_of k s = filter (\<lambda>frame. fst frame = k) (suspended s)"

definition lane_ok :: "'v Lanes \<Rightarrow> js_string \<Rightarrow> bool" where
  "lane_ok s k =
     (case lanes s k of
        None \<Rightarrow>
          frames_of k s = []
          \<and> started_under k (trace s) = enqueued_under k (trace s)
          \<and> in_flight k None (trace s) = Some None
      | Some a \<Rightarrow>
          a < next_addr s \<and> running (heap s a)
          \<and> started_under k (trace s) @ queue (heap s a) = enqueued_under k (trace s)
          \<and> (\<exists>item. frames_of k s = [(k, a, item)]
                 \<and> in_flight k None (trace s) = Some (Some (it_promise item))))"

definition no_sharing :: "'v Lanes \<Rightarrow> bool" where
  "no_sharing s = (\<forall>k k' a. lanes s k = Some a \<and> lanes s k' = Some a \<longrightarrow> k = k')"

definition lanes_inv :: "'v Lanes \<Rightarrow> bool" where
  "lanes_inv s = ((\<forall>k. lane_ok s k) \<and> no_sharing s)"

text \<open>
  The state in which an activation for key \<open>k\<close> with lane \<open>a\<close> is at the head of its loop.
\<close>

definition at_loop_head :: "js_string \<Rightarrow> nat \<Rightarrow> 'v Lanes \<Rightarrow> bool" where
  "at_loop_head k a s =
     (lanes s k = Some a \<and> a < next_addr s \<and> running (heap s a) \<and> frames_of k s = []
      \<and> started_under k (trace s) @ queue (heap s a) = enqueued_under k (trace s)
      \<and> in_flight k None (trace s) = Some None
      \<and> (\<forall>k'. k' \<noteq> k \<longrightarrow> lane_ok s k') \<and> no_sharing s)"

section \<open>Properties of session-manager.ts\<close>

lemma safe_unit_sanitize: "list_all safe_unit (sanitize s)"
  by (induction s) (auto simp: sanitize_def safe_unit_def)

lemma js_slice_last:
  assumes "1 \<le> k" and "k \<le> length xs"
  shows "js_slice xs (- int k) = drop (length xs - k) xs"
  using assms by (simp add: js_slice_def Let_def nat_diff_distrib' of_nat_diff)

lemma limitHistoryTurns_short:
  "length messages \<le> maxTurns \<Longrightarrow> limitHistoryTurns messages maxTurns = messages"
  by (simp add: limitHistoryTurns_def)

lemma limitHistoryTurns_long:
  assumes "2 \<le> maxTurns" and "maxTurns < length messages"
  shows "limitHistoryTurns messages maxTurns
           = hd messages # drop (length messages - (maxTurns - 1)) messages"
proof -
  have ne: "messages \<noteq> []" using assms by auto
  have k: "- (int maxTurns - 1) = - int (maxTurns - 1)" using assms by simp
  have "js_slice messages (- int (maxTurns - 1))
          = drop (length messages - (maxTurns - 1)) messages"
    using assms by (intro js_slice_last) auto
  with ne k assms show ?thesis
    by (simp add: limitHistoryTurns_def Let_def hd_conv_nth)
qed

text \<open>
  C9. For every session id, \<open>resolveSessionFile\<close> is \<open>path.join\<close> of the sessions
  directory and one file name: the sanitised id, of the same length as the id and made
  of code units of \<open>[a-zA-Z0-9-_]\<close> only, followed by \<open>.jsonl\<close>. The file name holds
  no path separator (\<open>/\<close> or \<open>\\\<close>) and is neither empty, \<open>.\<close> nor \<open>..\<close>, so joining
  it cannot leave the directory. The map is not injective: the ids \<open>a/b\<close> and \<open>a_b\<close>
  resolve to the same file.
\<close>

theorem resolveSessionFile_confined:
  "resolveSessionFile join sessionsDir sessionId
     = join sessionsDir (sanitize sessionId @ js ''.jsonl'')
   \<and> length (sanitize sessionId) = length sessionId
   \<and> list_all safe_unit (sanitize sessionId)
   \<and> 0x2F \<notin> set (session_file_name sessionId)
   \<and> 0x5C \<notin> set (session_file_name sessionId)
   \<and> session_file_name sessionId \<notin> {[], js ''.'', js ''..''}
   \<and> js ''a/b'' \<noteq> js ''a_b''
   \<and> resolveSessionFile join sessionsDir (js ''a/b'')
       = resolveSessionFile join sessionsDir (js ''a_b'')"
proof -
  have sep: "0x2F \<notin> set (sanitize sessionId)" "0x5C \<notin> set (sanitize sessionId)"
    by (auto simp: sanitize_def safe_unit_def)
  have len: "5 \<le> length (session_file_name sessionId)"
    by (simp add: session_file_name_def js_def)
  have "session_file_name sessionId \<notin> {[], js ''.'', js ''..''}"
    using len by (auto simp: js_def)
  moreover have "sanitize (js ''a/b'') = sanitize (js ''a_b'')"
    by (simp add: sanitize_def js_def safe_unit_def)
  ultimately show ?thesis
    using sep safe_unit_sanitize [of sessionId]
    by (simp add: resolveSessionFile_def session_file_name_def sanitize_def js_def)
qed

section \<open>Properties of the tool-calling loops\<close>

declare while_iterations.simps [simp del]

lemma io_bind_return [simp]: "io_bind (io_return x) f = f x"
  by (simp add: io_bind_def io_return_def)

lemma io_bind_apply:
  "io_bind m f w = (case m w of (Inl e, w') \<Rightarrow> (Inl e, w') | (Inr x, w') \<Rightarrow> f x w')"
  by (simp add: io_bind_def)

lemma io_bind_Inr: "m w = (Inr x, w') \<Longrightarrow> io_bind m f w = f x w'"
  by (simp add: io_bind_def)

lemma io_bind_Inl: "m w = (Inl e, w') \<Longrightarrow> io_bind m f w = (Inl e, w')"
  by (simp add: io_bind_def)

lemma io_return_apply: "io_return x w = (Inr x, w)"
  by (simp add: io_return_def)

lemma executeTool_unknown:
  "\<not> registered ctx toolName \<Longrightarrow>
   executeTool ctx toolName args
     = io_return \<lparr>te_content = js ''Error: Unknown tool \"'' @ toolName @ js ''\"'',
                  te_isError = Some True\<rparr>"
  by (simp add: executeTool_def registered_def)


lemma executeToolCalls_all_unknown:
  "list_all (\<lambda>tc. \<not> registered ctx (tc_name tc)) calls \<Longrightarrow>
   executeToolCalls ctx calls = io_return (map unknown_tool_result calls)"
  by (induction calls) (simp_all add: executeTool_unknown unknown_tool_result_def)

lemma while_iterations_throw:
  "iterations < MAX_TOOL_ITERATIONS \<Longrightarrow> body st w = (Inl e, w') \<Longrightarrow>
   while_iterations body iterations st w = (Inl e, w')"
  by (simp add: while_iterations.simps)

lemma while_iterations_break:
  "iterations < MAX_TOOL_ITERATIONS \<Longrightarrow> body st w = (Inr (Break st'), w') \<Longrightarrow>
   while_iterations body iterations st w = (Inr (iterations + 1, st'), w')"
  by (simp add: while_iterations.simps)

lemma while_iterations_continue:
  "iterations < MAX_TOOL_ITERATIONS \<Longrightarrow> body st w = (Inr (Continue st'), w') \<Longrightarrow>
   while_iterations body iterations st w = while_iterations body (iterations + 1) st' w'"
  by (simp add: while_iterations.simps)


lemma anthropic_iteration_unknown:
  assumes "client ctx = AnthropicSDK api"
    and "api (build_request ctx systemPrompt (msgs @ newMessages st)) (onPartialReply ctx) w
           = (Inr final, w')"
    and "tool_uses (final_content final) = calls" and "calls \<noteq> []"
    and "list_all (\<lambda>tc. \<not> registered ctx (tc_name tc)) calls"
  shows "anthropic_iteration ctx systemPrompt msgs st w =
     (Inr ((if stop_reason final = Some (js ''end_turn'') then Break else Continue)
        (st\<lparr>totalInputTokens := totalInputTokens st + input_tokens final,
            totalOutputTokens := totalOutputTokens st + output_tokens final,
            newMessages := newMessages st @
               [assistant_message (concat (text_events final)) calls,
                tool_results_message (map unknown_tool_result calls)],
            finalResponse := (if stop_reason final = Some (js ''end_turn'')
                              then concat (text_events final) else finalResponse st)\<rparr>)), w')"
  using assms
  by (simp add: anthropic_iteration_def io_bind_apply Let_def executeToolCalls_all_unknown
        io_return_apply)
















lemma anthropic_done_signals:
  assumes "client ctx = AnthropicSDK api"
    and "api (build_request ctx systemPrompt (msgs @ newMessages st)) (onPartialReply ctx) w
           = (Inr final, w1)"
  shows "tool_uses (final_content final) = [] \<Longrightarrow>
         \<exists>st'. anthropic_iteration ctx systemPrompt msgs st w = (Inr (Break st'), w1)
              \<and> finalResponse st' = concat (text_events final)"
    and "tool_uses (final_content final) \<noteq> [] \<Longrightarrow>
         executeToolCalls ctx (tool_uses (final_content final)) w1 = (Inr results, w2) \<Longrightarrow>
         stop_reason final = Some (js ''end_turn'') \<Longrightarrow>
         \<exists>st'. anthropic_iteration ctx systemPrompt msgs st w = (Inr (Break st'), w2)
              \<and> finalResponse st' = concat (text_events final)"
  using assms
  by (simp_all add: anthropic_iteration_def io_bind_apply Let_def io_return_apply)

lemma openai_done_signal:
  assumes "client ctx = OpenAISDK api"
    and "api (build_request ctx systemPrompt (msgs @ newMessages st)) (onPartialReply ctx) w
           = (Inr stream, w1)"
    and "parseToolCalls parse (streamed_toolCalls stream) = Inr []"
  shows "\<exists>st'. openai_iteration parse ctx systemPrompt msgs st w = (Inr (Break st'), w1)
              \<and> finalResponse st' = streamed_text stream"
  using assms
  by (simp add: openai_iteration_def io_bind_apply Let_def io_return_apply io_of_sum_def)

lemma stopping_openai_first:
  "openai_iteration stub_JSON_parse (stub_context (OpenAISDK stopping_openai)) [] []
     initial_loop_state 0
   = (Inr (Continue \<lparr>totalInputTokens = 10, totalOutputTokens = 5,
                      newMessages = [assistant_message (js ''done'') [echo_call],
                                     tool_results_message [echo_result]],
                      finalResponse = []\<rparr>), 1)"
  by (simp add: openai_iteration_def stub_context_def stopping_openai_def stop_stream_1_def
        io_bind_apply io_of_sum_def io_return_apply Let_def initial_loop_state_def
        executeTool_def echo_tool_def call_opt_def io_catch_def echo_call_def echo_result_def
        assistant_message_def tool_results_message_def)

lemma stopping_openai_second:
  "openai_iteration stub_JSON_parse (stub_context (OpenAISDK stopping_openai)) [] []
     \<lparr>totalInputTokens = 10, totalOutputTokens = 5,
      newMessages = [assistant_message (js ''done'') [echo_call],
                     tool_results_message [echo_result]],
      finalResponse = []\<rparr> 1
   = (Inr (Break \<lparr>totalInputTokens = 20, totalOutputTokens = 10,
                   newMessages = [assistant_message (js ''done'') [echo_call],
                                  tool_results_message [echo_result],
                                  assistant_message (js ''again'') []],
                   finalResponse = js ''again''\<rparr>), 2)"
  by (simp add: openai_iteration_def stub_context_def stopping_openai_def stop_stream_2_def
        io_bind_apply io_of_sum_def io_return_apply Let_def)

text \<open>
  C4 on the code. The Anthropic variant ends the turn on both signals (no tool call; or,
  after the tool calls of the reply have been executed, the stop reason \<open>end_turn\<close>), as
  \<open>anthropic_done_signals\<close> shows. The OpenAI variant ends it on the first signal only:
  when the stream carries a tool call together with the finish reason \<open>stop\<close>, the loop
  executes the tool and calls the backend a second time; the response is the text of the
  second reply.
\<close>

theorem openai_ignores_finish_reason:
  "finish_reason stop_stream_1 = Some (js ''stop'')
   \<and> runOpenAIAgentTurn stub_JSON_parse (stub_context (OpenAISDK stopping_openai)) [] [] 0
     = (Inr \<lparr>turn_response = js ''again'',
             turn_newMessages = [assistant_message (js ''done'') [echo_call],
                                 tool_results_message [echo_result],
                                 assistant_message (js ''again'') []],
             turn_usage = \<lparr>inputTokens = 20, outputTokens = 10\<rparr>\<rparr>, 2)"
proof -
  let ?body = "openai_iteration stub_JSON_parse (stub_context (OpenAISDK stopping_openai)) [] []"
  have "while_iterations ?body 0 initial_loop_state 0
      = while_iterations ?body (0 + 1)
          \<lparr>totalInputTokens = 10, totalOutputTokens = 5,
           newMessages = [assistant_message (js ''done'') [echo_call],
                          tool_results_message [echo_result]],
           finalResponse = []\<rparr> 1"
    using stopping_openai_first
    by (intro while_iterations_continue [where body = ?body])
       (simp_all add: MAX_TOOL_ITERATIONS_def)
  also have "\<dots> = (Inr (0 + 1 + 1,
        \<lparr>totalInputTokens = 20, totalOutputTokens = 10,
         newMessages = [assistant_message (js ''done'') [echo_call],
                        tool_results_message [echo_result],
                        assistant_message (js ''again'') []],
         finalResponse = js ''again''\<rparr>), 2)"
    using stopping_openai_second
    by (intro while_iterations_break [where body = ?body])
       (simp_all add: MAX_TOOL_ITERATIONS_def)
  finally show ?thesis
    by (simp add: runOpenAIAgentTurn_def io_bind_apply io_return_apply turn_result_def
          stop_stream_1_def)
qed

section \<open>Properties of \<open>runAgent\<close>\<close>

lemma error_result_fields:
  "res_response (error_result provider model ms err) = []"
  "res_messages (error_result provider model ms err) = ms"
  "res_usage (error_result provider model ms err) = None"
  by (simp_all add: error_result_def Let_def)

lemma error_result_kind:
  "\<exists>k m. res_error (error_result provider model ms err) = Some \<lparr>kind = k, message = m\<rparr>
         \<and> k \<in> set error_kinds"
  by (simp add: error_result_def Let_def error_kinds_def)

lemma runAgent_turn_throws:
  assumes "createClient env (effective_provider params) (p_apiKey params)
             (p_bedrockConfig params) w = (Inr cl, w1)"
    and "loadSession env (session_file env params) w1 = (Inr loaded, w2)"
    and "(case loaded of
            Some s \<Rightarrow> io_return s
          | None \<Rightarrow> createSession env (p_sessionId params)
                      (Some (resolveModel (p_model params) (effective_provider params)))
                      (Some (effective_provider params))) w2 = (Inr session, w3)"
    and "loadContextFiles env (p_workspaceDir params) w3 = (contextFiles, w4)"
    and "dispatch_turn env params cl session contextFiles w4 = (Inl err, w5)"
  shows "runAgent env params w
       = (Inr (error_result (effective_provider params)
                 (resolveModel (p_model params) (effective_provider params))
                 (sd_messages session) err), w5)"
  using assms
  by (simp add: runAgent_def Let_def io_bind_apply io_try_def io_lift_def io_return_apply)

lemma runAgent_turn_returns:
  assumes "createClient env (effective_provider params) (p_apiKey params)
             (p_bedrockConfig params) w = (Inr cl, w1)"
    and "loadSession env (session_file env params) w1 = (Inr loaded, w2)"
    and "(case loaded of
            Some s \<Rightarrow> io_return s
          | None \<Rightarrow> createSession env (p_sessionId params)
                      (Some (resolveModel (p_model params) (effective_provider params)))
                      (Some (effective_provider params))) w2 = (Inr session, w3)"
    and "loadContextFiles env (p_workspaceDir params) w3 = (contextFiles, w4)"
    and "dispatch_turn env params cl session contextFiles w4 = (Inr result, w5)"
    and "toISOString_now env w5 = (now, w6)"
  shows "runAgent env params w
       = (case saveSession env (session_file env params)
                 (updated_session params session result now) w6 of
            (Inl e, w7) \<Rightarrow>
              (Inr (error_result (effective_provider params)
                      (resolveModel (p_model params) (effective_provider params))
                      (sd_messages (updated_session params session result now)) e), w7)
          | (Inr u, w7) \<Rightarrow>
              (Inr \<lparr>res_response = turn_response result,
                     res_messages = sd_messages (updated_session params session result now),
                     res_usage = Some (turn_usage result), res_error = None\<rparr>, w7))"
  using assms
  by (simp add: runAgent_def Let_def io_bind_apply io_try_def io_lift_def io_return_apply
        io_catch_def split: prod.splits sum.splits)

lemma anthropic_iteration_throws:
  "client ctx = AnthropicSDK api \<Longrightarrow>
   api (build_request ctx systemPrompt (msgs @ newMessages st)) (onPartialReply ctx) w
     = (Inl e, w') \<Longrightarrow>
   anthropic_iteration ctx systemPrompt msgs st w = (Inl e, w')"
  by (simp add: anthropic_iteration_def io_bind_apply)

lemma openai_iteration_throws:
  "client ctx = OpenAISDK api \<Longrightarrow>
   api (build_request ctx systemPrompt (msgs @ newMessages st)) (onPartialReply ctx) w
     = (Inl e, w') \<Longrightarrow>
   openai_iteration parse ctx systemPrompt msgs st w = (Inl e, w')"
  by (simp add: openai_iteration_def io_bind_apply)

lemma turn_throws:
  "while_iterations (anthropic_iteration ctx systemPrompt msgs) 0 initial_loop_state w
     = (Inl e, w') \<Longrightarrow>
   runAnthropicAgentTurn ctx systemPrompt msgs w = (Inl e, w')"
  "while_iterations (openai_iteration parse ctx systemPrompt msgs) 0 initial_loop_state w
     = (Inl e, w') \<Longrightarrow>
   runOpenAIAgentTurn parse ctx systemPrompt msgs w = (Inl e, w')"
  by (simp_all add: runAnthropicAgentTurn_def runOpenAIAgentTurn_def io_bind_apply)

lemma createClient_kind:
  assumes "createClient env provider apiKey bedrock w = (Inr cl, w1)"
  shows "if provider = OpenAI then \<exists>api. cl = OpenAISDK api else \<exists>api. cl = AnthropicSDK api"
  using assms
  by (auto simp: createClient_def io_bind_apply io_return_apply
        split: if_splits prod.splits sum.splits)

lemma dispatch_turn_throws:
  assumes "createClient env (effective_provider params) apiKey bedrock w = (Inr cl, w1)"
    and ctx: "ctx = run_context env params cl"
    and sp: "systemPrompt = buildSystemPrompt env (p_workspaceDir params) (map name (tools ctx))
                             contextFiles (p_sessionId params)"
    and msgs: "msgs = limitHistoryTurns (sd_messages session) MAX_HISTORY_TURNS
                        @ [user_message (p_prompt params)]"
    and body: "body = (if effective_provider params = OpenAI
                       then openai_iteration (JSON_parse env) ctx systemPrompt msgs
                       else anthropic_iteration ctx systemPrompt msgs)"
    and reach: "while_iterations body 0 initial_loop_state w4 = while_iterations body iterations st v"
    and lt: "iterations < MAX_TOOL_ITERATIONS"
    and fail: "backend_fails cl (build_request ctx systemPrompt (msgs @ newMessages st))
                 (onPartialReply ctx) v err w5"
  shows "dispatch_turn env params cl session contextFiles w4 = (Inl err, w5)"
proof (cases "effective_provider params = OpenAI")
  case True
  with createClient_kind [OF assms(1)] obtain api where cl: "cl = OpenAISDK api" by auto
  have c: "client ctx = OpenAISDK api" using ctx cl by (simp add: run_context_def)
  have "body st v = (Inl err, w5)"
    using True body fail cl by (simp add: openai_iteration_throws [OF c] backend_fails_def)
  then have "while_iterations body iterations st v = (Inl err, w5)"
    using lt by (intro while_iterations_throw)
  then have "while_iterations (openai_iteration (JSON_parse env) ctx systemPrompt msgs) 0
               initial_loop_state w4 = (Inl err, w5)"
    using reach body True by simp
  then show ?thesis
    using True ctx sp msgs by (simp add: dispatch_turn_def Let_def turn_throws)
next
  case False
  with createClient_kind [OF assms(1)] obtain api where cl: "cl = AnthropicSDK api" by auto
  have c: "client ctx = AnthropicSDK api" using ctx cl by (simp add: run_context_def)
  have "body st v = (Inl err, w5)"
    using False body fail cl by (simp add: anthropic_iteration_throws [OF c] backend_fails_def)
  then have "while_iterations body iterations st v = (Inl err, w5)"
    using lt by (intro while_iterations_throw)
  then have "while_iterations (anthropic_iteration ctx systemPrompt msgs) 0
               initial_loop_state w4 = (Inl err, w5)"
    using reach body False by simp
  then show ?thesis
    using False ctx sp msgs by (simp add: dispatch_turn_def Let_def turn_throws)
qed

text \<open>
  C3, as amended. Take a run whose setup succeeded and whose loop has reached some
  iteration below the cap, and let the backend call of that iteration fail. Then
  \<open>runAgent\<close> returns (it does not throw) in the world left by the failing call: no
  further backend call is made and nothing is saved. The result has the empty response,
  no usage, an error with one of the five kinds and a message, and as its messages the
  messages of the session as it was loaded (or created) at the start of the run: the
  stored history, not limited, without the new user turn and without the messages the
  loop produced before the failure.
\<close>

theorem backend_failure_ends_run:
  assumes "createClient env (effective_provider params) (p_apiKey params)
             (p_bedrockConfig params) w = (Inr cl, w1)"
    and "loadSession env (session_file env params) w1 = (Inr loaded, w2)"
    and "(case loaded of
            Some s \<Rightarrow> io_return s
          | None \<Rightarrow> createSession env (p_sessionId params)
                      (Some (resolveModel (p_model params) (effective_provider params)))
                      (Some (effective_provider params))) w2 = (Inr session, w3)"
    and "loadContextFiles env (p_workspaceDir params) w3 = (contextFiles, w4)"
    and "ctx = run_context env params cl"
    and "systemPrompt = buildSystemPrompt env (p_workspaceDir params) (map name (tools ctx))
                          contextFiles (p_sessionId params)"
    and "msgs = limitHistoryTurns (sd_messages session) MAX_HISTORY_TURNS
                  @ [user_message (p_prompt params)]"
    and "body = (if effective_provider params = OpenAI
                 then openai_iteration (JSON_parse env) ctx systemPrompt msgs
                 else anthropic_iteration ctx systemPrompt msgs)"
    and "while_iterations body 0 initial_loop_state w4 = while_iterations body iterations st v"
    and "iterations < MAX_TOOL_ITERATIONS"
    and "backend_fails cl (build_request ctx systemPrompt (msgs @ newMessages st))
           (onPartialReply ctx) v err w5"
    and "result = error_result (effective_provider params)
                    (resolveModel (p_model params) (effective_provider params))
                    (sd_messages session) err"
  shows "runAgent env params w = (Inr result, w5)
     \<and> res_response result = []
     \<and> res_messages result = sd_messages session
     \<and> res_usage result = None
     \<and> (\<exists>k m. res_error result = Some \<lparr>kind = k, message = m\<rparr> \<and> k \<in> set error_kinds)"
proof -
  have "dispatch_turn env params cl session contextFiles w4 = (Inl err, w5)"
    using assms(1,5-11) by (rule dispatch_turn_throws)
  with assms(1-4) have "runAgent env params w = (Inr result, w5)"
    unfolding assms(12) by (rule runAgent_turn_throws)
  then show ?thesis
    unfolding assms(12) using error_result_kind by (simp add: error_result_fields)
qed

lemma failing_anthropic_first:
  "anthropic_iteration (run_context (stub_env failing_anthropic) stub_params
       (AnthropicSDK failing_anthropic)) sp ms initial_loop_state 0
     = (Inr (Continue (busy_step initial_loop_state)), 1)"
proof -
  let ?C = "run_context (stub_env failing_anthropic) stub_params (AnthropicSDK failing_anthropic)"
  have "\<not> registered ?C (js ''nope'')"
    by (simp add: registered_def run_context_def stub_env_def stub_params_def echo_tool_def js_def)
  then have u: "list_all (\<lambda>tc. \<not> registered ?C (tc_name tc)) [nope_call]"
    by (simp add: nope_call_def)
  have "anthropic_iteration ?C sp ms initial_loop_state 0 =
     (Inr ((if stop_reason busy_final = Some (js ''end_turn'') then Break else Continue)
        (initial_loop_state\<lparr>totalInputTokens := totalInputTokens initial_loop_state + input_tokens busy_final,
            totalOutputTokens := totalOutputTokens initial_loop_state + output_tokens busy_final,
            newMessages := newMessages initial_loop_state @
               [assistant_message (concat (text_events busy_final)) [nope_call],
                tool_results_message (map unknown_tool_result [nope_call])],
            finalResponse := (if stop_reason busy_final = Some (js ''end_turn'')
                              then concat (text_events busy_final)
                              else finalResponse initial_loop_state)\<rparr>)), 1)"
    using u
    by (intro anthropic_iteration_unknown [where api = failing_anthropic])
       (simp_all add: run_context_def failing_anthropic_def busy_final_def nope_call_def)
  then show ?thesis
    by (simp add: busy_step_def busy_final_def js_def)
qed

lemma stub_run_setup:
  "createClient (stub_env failing_anthropic) (effective_provider stub_params)
     (p_apiKey stub_params) (p_bedrockConfig stub_params) 0
     = (Inr (AnthropicSDK failing_anthropic), 0)"
  "loadSession (stub_env failing_anthropic) (session_file (stub_env failing_anthropic) stub_params) 0
     = (Inr (Some stored_session), 0)"
  "(case Some stored_session of
      Some s \<Rightarrow> io_return s
    | None \<Rightarrow> createSession (stub_env failing_anthropic) (p_sessionId stub_params)
                (Some (resolveModel (p_model stub_params) (effective_provider stub_params)))
                (Some (effective_provider stub_params))) 0 = (Inr stored_session, 0)"
  "loadContextFiles (stub_env failing_anthropic) (p_workspaceDir stub_params) 0 = ([], 0)"
  by (simp_all add: effective_provider_def stub_params_def createClient_def stub_env_def
        io_return_apply)

lemma stub_run_reach:
  "while_iterations
     (if effective_provider stub_params = OpenAI
      then openai_iteration (JSON_parse (stub_env failing_anthropic))
             (run_context (stub_env failing_anthropic) stub_params (AnthropicSDK failing_anthropic))
             sp ms
      else anthropic_iteration
             (run_context (stub_env failing_anthropic) stub_params (AnthropicSDK failing_anthropic))
             sp ms) 0 initial_loop_state 0
   = while_iterations
     (if effective_provider stub_params = OpenAI
      then openai_iteration (JSON_parse (stub_env failing_anthropic))
             (run_context (stub_env failing_anthropic) stub_params (AnthropicSDK failing_anthropic))
             sp ms
      else anthropic_iteration
             (run_context (stub_env failing_anthropic) stub_params (AnthropicSDK failing_anthropic))
             sp ms) 1 (busy_step initial_loop_state) 1"
proof -
  have p: "effective_provider stub_params = Anthropic"
    by (simp add: effective_provider_def stub_params_def)
  show ?thesis
    using failing_anthropic_first [of sp ms]
    by (simp add: p while_iterations_continue [where st' = "busy_step initial_loop_state" and w' = 1]
          MAX_TOOL_ITERATIONS_def)
qed

lemma stub_run_fail:
  "backend_fails (AnthropicSDK failing_anthropic) rq cb 1 (Error (js ''429 rate_limit_error'')) 2"
  by (simp add: backend_fails_def failing_anthropic_def)

lemma stub_run_values:
  "effective_provider stub_params = Anthropic"
  "resolveModel (p_model stub_params) Anthropic = js ''claude-sonnet-4-20250514''"
  "sd_messages stored_session = [stored_message]"
  "1 < MAX_TOOL_ITERATIONS"
  by (simp_all add: effective_provider_def resolveModel_def stub_params_def DEFAULT_MODELS_def
        stored_session_def MAX_TOOL_ITERATIONS_def)

theorem backend_failure_ends_run_witness:
  "runAgent (stub_env failing_anthropic) stub_params 0
     = (Inr (error_result Anthropic (js ''claude-sonnet-4-20250514'') [stored_message]
               (Error (js ''429 rate_limit_error''))), 2)
   \<and> res_messages (error_result Anthropic (js ''claude-sonnet-4-20250514'') [stored_message]
               (Error (js ''429 rate_limit_error''))) = [stored_message]"
  using backend_failure_ends_run
          [OF stub_run_setup refl refl refl refl stub_run_reach stub_run_values(4)
              stub_run_fail refl]
  by (simp add: stub_run_values)

lemma rate_limit_error_result:
  "error_result Anthropic model ms (Error (js ''429 rate_limit_error''))
     = \<lparr>res_response = [], res_messages = ms, res_usage = None,
        res_error = Some \<lparr>kind = js ''rate_limit'',
                          message = js ''Rate limit exceeded. Please wait before trying again.''\<rparr>\<rparr>"
  by (simp add: error_result_def Let_def js_def)

text \<open>
  C3 as stated fails: with one stored message, a first backend call that asks for a tool
  and a second one that fails, the result holds the stored message only; the user turn
  and the assistant message of the first reply are not in it.
\<close>

theorem partial_conversation_lost_counterexample:
  "runAgent (stub_env failing_anthropic) stub_params 0
     = (Inr \<lparr>res_response = [], res_messages = [stored_message], res_usage = None,
             res_error = Some \<lparr>kind = js ''rate_limit'',
                               message = js ''Rate limit exceeded. Please wait before trying again.''\<rparr>\<rparr>,
        2)
   \<and> user_message (js ''hello'') \<notin> set [stored_message]
   \<and> assistant_message (js ''working'') [nope_call] \<notin> set [stored_message]"
proof -
  have "dispatch_turn (stub_env failing_anthropic) stub_params (AnthropicSDK failing_anthropic)
          stored_session [] 0 = (Inl (Error (js ''429 rate_limit_error'')), 2)"
    by (rule dispatch_turn_throws
          [OF stub_run_setup(1) refl refl refl refl stub_run_reach stub_run_values(4)
              stub_run_fail])
  then have "runAgent (stub_env failing_anthropic) stub_params 0
     = (Inr (error_result (effective_provider stub_params)
               (resolveModel (p_model stub_params) (effective_provider stub_params))
               (sd_messages stored_session) (Error (js ''429 rate_limit_error''))), 2)"
    by (rule runAgent_turn_throws [OF stub_run_setup])
  moreover have "user_message (js ''hello'') \<noteq> stored_message"
    "assistant_message (js ''working'') [nope_call] \<noteq> stored_message"
    by (simp_all add: user_message_def stored_message_def assistant_message_def js_def)
  ultimately show ?thesis
    by (simp add: stub_run_values rate_limit_error_result)
qed

lemma dispatch_turn_messages:
  "dispatch_turn env params cl session contextFiles
     = (if effective_provider params = OpenAI
        then runOpenAIAgentTurn (JSON_parse env) (run_context env params cl)
               (buildSystemPrompt env (p_workspaceDir params)
                  (map name (tools (run_context env params cl))) contextFiles (p_sessionId params))
               (limitHistoryTurns (sd_messages session) 50 @ [user_message (p_prompt params)])
        else runAnthropicAgentTurn (run_context env params cl)
               (buildSystemPrompt env (p_workspaceDir params)
                  (map name (tools (run_context env params cl))) contextFiles (p_sessionId params))
               (limitHistoryTurns (sd_messages session) 50 @ [user_message (p_prompt params)]))"
  by (simp add: dispatch_turn_def Let_def MAX_HISTORY_TURNS_def)

lemma updated_session_messages:
  "sd_messages (updated_session params session result now)
     = limitHistoryTurns (sd_messages session) 50 @ [user_message (p_prompt params)]
         @ turn_newMessages result"
  by (simp add: updated_session_def Let_def MAX_HISTORY_TURNS_def)

text \<open>
  C10. For \<open>maxTurns \<ge> 2\<close>, a list of at most \<open>maxTurns\<close> messages is returned
  unchanged; a longer one becomes its first message followed by its last \<open>maxTurns - 1\<close>
  messages, \<open>maxTurns\<close> messages in all. The runner applies it with the constant 50 to
  the stored history before the turn: the turn is run on the limited history followed by
  the user message, and the session that is saved and returned after a successful turn
  holds the limited history, the user message and the new messages.
\<close>

theorem limitHistoryTurns_keeps_first_and_recent:
  assumes "2 \<le> maxTurns"
  shows "(length messages \<le> maxTurns \<longrightarrow> limitHistoryTurns messages maxTurns = messages)
     \<and> (maxTurns < length messages \<longrightarrow>
          limitHistoryTurns messages maxTurns
            = messages ! 0 # drop (length messages - (maxTurns - 1)) messages
          \<and> length (limitHistoryTurns messages maxTurns) = maxTurns)
     \<and> MAX_HISTORY_TURNS = 50
     \<and> dispatch_turn env params cl session contextFiles
         = (if effective_provider params = OpenAI
            then runOpenAIAgentTurn (JSON_parse env) (run_context env params cl)
                   (buildSystemPrompt env (p_workspaceDir params)
                      (map name (tools (run_context env params cl))) contextFiles
                      (p_sessionId params))
                   (limitHistoryTurns (sd_messages session) 50 @ [user_message (p_prompt params)])
            else runAnthropicAgentTurn (run_context env params cl)
                   (buildSystemPrompt env (p_workspaceDir params)
                      (map name (tools (run_context env params cl))) contextFiles
                      (p_sessionId params))
                   (limitHistoryTurns (sd_messages session) 50 @ [user_message (p_prompt params)]))
     \<and> (createClient env (effective_provider params) (p_apiKey params)
             (p_bedrockConfig params) w = (Inr cl, wa)
          \<and> loadSession env (session_file env params) wa = (Inr loaded, wb)
          \<and> (case loaded of
                Some s \<Rightarrow> io_return s
              | None \<Rightarrow> createSession env (p_sessionId params)
                          (Some (resolveModel (p_model params) (effective_provider params)))
                          (Some (effective_provider params))) wb = (Inr session, wc)
          \<and> loadContextFiles env (p_workspaceDir params) wc = (contextFiles, wd)
          \<and> dispatch_turn env params cl session contextFiles wd = (Inr result, we)
          \<and> toISOString_now env we = (now, wx)
          \<and> saveSession env (session_file env params) saved wx = (Inr (), wy)
          \<and> saved = updated_session params session result now
          \<longrightarrow> sd_messages saved
                = limitHistoryTurns (sd_messages session) 50 @ [user_message (p_prompt params)]
                    @ turn_newMessages result
              \<and> runAgent env params w
                = (Inr \<lparr>res_response = turn_response result,
                        res_messages = sd_messages saved,
                        res_usage = Some (turn_usage result), res_error = None\<rparr>, wy))"
proof -
  have long: "limitHistoryTurns messages maxTurns
            = messages ! 0 # drop (length messages - (maxTurns - 1)) messages
          \<and> length (limitHistoryTurns messages maxTurns) = maxTurns"
    if "maxTurns < length messages"
  proof -
    have "messages \<noteq> []" using that by auto
    then have "hd messages = messages ! 0" by (rule hd_conv_nth)
    then show ?thesis
      using limitHistoryTurns_long [OF assms that] that assms by simp
  qed
  have run: "runAgent env params w
                = (Inr \<lparr>res_response = turn_response result,
                        res_messages = sd_messages (updated_session params session result now),
                        res_usage = Some (turn_usage result), res_error = None\<rparr>, wy)"
    if "createClient env (effective_provider params) (p_apiKey params)
             (p_bedrockConfig params) w = (Inr cl, wa)"
      "loadSession env (session_file env params) wa = (Inr loaded, wb)"
      "(case loaded of
                Some s \<Rightarrow> io_return s
              | None \<Rightarrow> createSession env (p_sessionId params)
                          (Some (resolveModel (p_model params) (effective_provider params)))
                          (Some (effective_provider params))) wb = (Inr session, wc)"
      "loadContextFiles env (p_workspaceDir params) wc = (contextFiles, wd)"
      "dispatch_turn env params cl session contextFiles wd = (Inr result, we)"
      "toISOString_now env we = (now, wx)"
      "saveSession env (session_file env params)
         (updated_session params session result now) wx = (Inr (), wy)"
    using runAgent_turn_returns [OF that(1-6)] that(7) by simp
  show ?thesis
    using long run
    by (auto simp: limitHistoryTurns_short MAX_HISTORY_TURNS_def updated_session_messages
          dispatch_turn_messages)
qed

lemma polite_dispatch:
  "dispatch_turn (stub_env polite_anthropic) stub_params (AnthropicSDK polite_anthropic)
     stored_session [] 0
   = (Inr \<lparr>turn_response = js ''hi'', turn_newMessages = [assistant_message (js ''hi'') []],
           turn_usage = \<lparr>inputTokens = 10, outputTokens = 5\<rparr>\<rparr>, 1)"
proof -
  let ?C = "run_context (stub_env polite_anthropic) stub_params (AnthropicSDK polite_anthropic)"
  have it: "anthropic_iteration ?C sp ms initial_loop_state 0
      = (Inr (Break \<lparr>totalInputTokens = 10, totalOutputTokens = 5,
                      newMessages = [assistant_message (js ''hi'') []],
                      finalResponse = js ''hi''\<rparr>), 1)" for sp ms
    by (simp add: anthropic_iteration_def run_context_def polite_anthropic_def polite_final_def
          io_bind_apply io_return_apply Let_def initial_loop_state_def)
  have "while_iterations (anthropic_iteration ?C sp ms) 0 initial_loop_state 0
      = (Inr (0 + 1, \<lparr>totalInputTokens = 10, totalOutputTokens = 5,
                      newMessages = [assistant_message (js ''hi'') []],
                      finalResponse = js ''hi''\<rparr>), 1)" for sp ms
    using it [of sp ms]
    by (intro while_iterations_break [where body = "anthropic_iteration ?C sp ms"])
       (simp_all add: MAX_TOOL_ITERATIONS_def)
  then show ?thesis
    by (simp add: dispatch_turn_def Let_def effective_provider_def stub_params_def
          runAnthropicAgentTurn_def io_bind_apply io_return_apply turn_result_def)
qed

theorem limitHistoryTurns_keeps_first_and_recent_witness:
  "limitHistoryTurns [1, 2, 3, 4, 5 :: nat] 3 = [1, 4, 5]
   \<and> limitHistoryTurns [1, 2 :: nat] 3 = [1, 2]
   \<and> runAgent (stub_env polite_anthropic) stub_params 0
       = (Inr \<lparr>res_response = js ''hi'',
               res_messages = [stored_message, user_message (js ''hello''),
                               assistant_message (js ''hi'') []],
               res_usage = Some \<lparr>inputTokens = 10, outputTokens = 5\<rparr>, res_error = None\<rparr>, 1)"
proof -
  let ?E = "stub_env polite_anthropic"
  let ?r = "\<lparr>turn_response = js ''hi'', turn_newMessages = [assistant_message (js ''hi'') []],
            turn_usage = \<lparr>inputTokens = 10, outputTokens = 5\<rparr>\<rparr>"
  let ?now = "js ''2026-01-02T00:00:00.000Z''"
  have two: "(2::nat) \<le> 3" by simp
  note long = limitHistoryTurns_keeps_first_and_recent [OF two,
      where messages = "[1, 2, 3, 4, 5 :: nat]" and env = ?E and params = stub_params
        and cl = "AnthropicSDK polite_anthropic" and session = stored_session
        and contextFiles = "[]" and w = 0 and wa = 0 and loaded = "Some stored_session"
        and wb = 0 and wc = 0 and wd = 0 and result = ?r and we = 1 and now = ?now
        and wx = 1 and wy = 1 and saved = "updated_session stub_params stored_session ?r ?now"]
  note short = limitHistoryTurns_keeps_first_and_recent [OF two,
      where messages = "[1, 2 :: nat]" and env = ?E and params = stub_params
        and cl = "AnthropicSDK polite_anthropic" and session = stored_session
        and contextFiles = "[]"]
  have h: "createClient ?E (effective_provider stub_params) (p_apiKey stub_params)
             (p_bedrockConfig stub_params) 0 = (Inr (AnthropicSDK polite_anthropic), 0)"
    "loadSession ?E (session_file ?E stub_params) 0 = (Inr (Some stored_session), 0)"
    "(case Some stored_session of
        Some s \<Rightarrow> io_return s
      | None \<Rightarrow> createSession ?E (p_sessionId stub_params)
                  (Some (resolveModel (p_model stub_params) (effective_provider stub_params)))
                  (Some (effective_provider stub_params))) 0 = (Inr stored_session, 0)"
    "loadContextFiles ?E (p_workspaceDir stub_params) 0 = ([], 0)"
    "toISOString_now ?E 1 = (?now, 1)"
    "saveSession ?E (session_file ?E stub_params)
       (updated_session stub_params stored_session ?r ?now) 1 = (Inr (), 1)"
    by (simp_all add: effective_provider_def stub_params_def createClient_def stub_env_def
          io_return_apply)
  have v: "limitHistoryTurns (sd_messages stored_session) 50 = [stored_message]"
    "p_prompt stub_params = js ''hello''"
    by (simp_all add: limitHistoryTurns_def stored_session_def stub_params_def)
  have "limitHistoryTurns [1, 2, 3, 4, 5 :: nat] 3 = [1, 4, 5]"
    using long by simp
  moreover have "limitHistoryTurns [1, 2 :: nat] 3 = [1, 2]"
    using short by simp
  moreover have "runAgent ?E stub_params 0
       = (Inr \<lparr>res_response = js ''hi'',
               res_messages = [stored_message, user_message (js ''hello''),
                               assistant_message (js ''hi'') []],
               res_usage = Some \<lparr>inputTokens = 10, outputTokens = 5\<rparr>, res_error = None\<rparr>, 1)"
    using long h polite_dispatch by (simp add: v)
  ultimately show ?thesis by simp
qed

section \<open>Properties of the active runs\<close>

declare digits.simps [simp del]

lemma digit_range: "d < 10 \<Longrightarrow> 0x30 \<le> digit d \<and> digit d \<le> 0x39"
proof -
  assume "d < 10"
  then have "d \<in> {0,1,2,3,4,5,6,7,8,9}" by auto
  then show ?thesis by (auto simp: digit_def)
qed

lemma digit_inj: "a < 10 \<Longrightarrow> b < 10 \<Longrightarrow> digit a = digit b \<Longrightarrow> a = b"
proof -
  assume "a < 10" "b < 10" "digit a = digit b"
  then have "a \<in> {0,1,2,3,4,5,6,7,8,9}" "b \<in> {0,1,2,3,4,5,6,7,8,9}" by auto
  with \<open>digit a = digit b\<close> show ?thesis by (auto simp: digit_def)
qed

lemma digit_value_digit: "d < 10 \<Longrightarrow> digit_value (digit d) = d"
proof -
  assume "d < 10"
  then have "d \<in> {0,1,2,3,4,5,6,7,8,9}" by auto
  then show ?thesis by (auto simp: digit_def digit_value_def)
qed

lemma digits_value:
  "foldl (\<lambda>a c. 10 * a + digit_value c) 0 (digits n) = n"
proof (induction n rule: digits.induct)
  case (1 n)
  show ?case
  proof (cases "n < 10")
    case True
    then show ?thesis by (simp add: digits.simps [of n] digit_value_digit)
  next
    case False
    then show ?thesis
      using 1 by (simp add: digits.simps [of n] digit_value_digit)
  qed
qed

lemma digits_inj: "digits a = digits b \<Longrightarrow> a = b"
  by (metis digits_value)

lemma digits_range: "c \<in> set (digits n) \<Longrightarrow> 0x30 \<le> c \<and> c \<le> 0x39"
proof (induction n rule: digits.induct)
  case (1 n)
  show ?case
  proof (cases "n < 10")
    case True
    then show ?thesis using 1(2) digit_range [of n] by (simp add: digits.simps [of n])
  next
    case False
    then show ?thesis
      using 1 digit_range [of "n mod 10"] by (auto simp: digits.simps [of n])
  qed
qed

lemma digits_nonempty: "digits n \<noteq> []"
  by (subst digits.simps) simp

lemma number_to_string_inj: "number_to_string a = number_to_string b \<Longrightarrow> a = b"
proof -
  assume eq: "number_to_string a = number_to_string b"
  have minus: "digits n \<noteq> 0x2D # ds" for n ds
  proof
    assume "digits n = 0x2D # ds"
    then have "0x2D \<in> set (digits n)" by simp
    from digits_range [OF this] show False by simp
  qed
  show ?thesis
  proof (cases "a < 0"; cases "b < 0")
    assume "a < 0" "b < 0"
    with eq have "nat (- a) = nat (- b)" by (simp add: number_to_string_def digits_inj)
    with \<open>a < 0\<close> \<open>b < 0\<close> show ?thesis by simp
  next
    assume "a < 0" "\<not> b < 0"
    with eq minus [of "nat b" "digits (nat (- a))"] show ?thesis
      by (simp add: number_to_string_def)
  next
    assume "\<not> a < 0" "b < 0"
    with eq minus [of "nat a" "digits (nat (- b))"] show ?thesis
      by (simp add: number_to_string_def)
  next
    assume "\<not> a < 0" "\<not> b < 0"
    with eq have "nat a = nat b" by (simp add: number_to_string_def digits_inj)
    with \<open>\<not> a < 0\<close> \<open>\<not> b < 0\<close> show ?thesis by simp
  qed
qed

lemma number_to_string_no_colon: "0x3A \<notin> set (number_to_string i)"
proof
  assume "0x3A \<in> set (number_to_string i)"
  then have "(0x3A :: 16 word) \<in> set (digits (nat (- i))) \<or> (0x3A :: 16 word) \<in> set (digits (nat i))"
    by (auto simp: number_to_string_def split: if_splits)
  then show False using digits_range [of "0x3A"] by auto
qed

lemma last_separator_splits:
  "x \<notin> set ys \<Longrightarrow> x \<notin> set ys' \<Longrightarrow> xs @ x # ys = xs' @ x # ys' \<Longrightarrow> xs = xs' \<and> ys = ys'"
proof (induction xs arbitrary: xs')
  case Nil
  then show ?case by (cases xs') auto
next
  case (Cons a q)
  show ?case
  proof (cases xs')
    case Nil
    with Cons.prems show ?thesis by auto
  next
    case (Cons b r)
    with Cons.prems Cons.IH [of r] show ?thesis by auto
  qed
qed

lemma run_id_inj: "run_id s a = run_id t b \<longleftrightarrow> s = t \<and> a = b"
proof
  assume eq: "run_id s a = run_id t b"
  then have "s @ 0x3A # number_to_string a = t @ 0x3A # number_to_string b"
    by (simp add: run_id_def js_def)
  with number_to_string_no_colon [of a] number_to_string_no_colon [of b]
  have "s = t \<and> number_to_string a = number_to_string b"
    by (intro last_separator_splits)
  then show "s = t \<and> a = b" using number_to_string_inj by blast
next
  assume "s = t \<and> a = b"
  then show "run_id s a = run_id t b" by simp
qed



lemma run_begin_state:
  assumes "Date_now w = (now, w')"
    and "run_begin Date_now d options w = (Inr (runId, params), d1, w1)"
  shows "runId = run_id (ro_sessionId options) now"
    and "\<exists>run. activeRuns d1 = map_set runId run (activeRuns d)"
    and "p_sessionId params = ro_sessionId options"
  using assms
  by (auto simp: run_begin_def Let_def split: prod.splits sum.splits)





lemma run_finish_settles:
  "isl (fst (run_finish d runId sessionId (Inl e) w))"
  "emit d (RunEnd runId sessionId result) w = (Inr u, w')
     \<Longrightarrow> run_finish d runId sessionId (Inr result) w
         = (Inr result, d\<lparr>activeRuns := map_delete runId (activeRuns d)\<rparr>, w')"
  by (simp_all add: run_finish_def Let_def io_catch_def io_bind_apply io_throw_def
        io_return_apply split: prod.splits sum.splits)


lemma frozen_run_id: "run_id (js ''s1'') 1700000000000 = js ''s1:1700000000000''"
  by (simp add: run_id_def number_to_string_def digits.simps digit_def js_def)

lemma stub_begin:
  "\<exists>params d1. run_begin frozen_clock d stub_options w
      = (Inr (js ''s1:1700000000000'', params), d1, w)"
  if "emit d = (\<lambda>event. io_return ())"
  using that frozen_run_id
  by (simp add: run_begin_def Let_def frozen_clock_def stub_options_def io_return_apply
        split: prod.splits)


lemma emit_run_task: "emit (fst (snd (run_task env Date_now d options w))) = emit d"
  by (simp add: run_task_def run_begin_def run_finish_def Let_def
        split: prod.splits sum.splits)

text \<open>
  C6, as amended. The run id is the session id, a colon and the clock reading in decimal:
  it is made from the session id and the wall clock alone, with no counter. Two run ids
  are equal exactly when the session ids are equal and the clock readings are equal; so
  runs of different sessions never share an id, and two runs of one session share it
  when they read the same millisecond.
\<close>

theorem run_id_is_session_and_clock:
  "(run_id s a = run_id t b \<longleftrightarrow> s = t \<and> a = b)
   \<and> (Date_now w = (now, w') \<and> run_begin Date_now d options w = (Inr (runId, params), d', w'')
        \<longrightarrow> runId = run_id (ro_sessionId options) now)"
  using run_begin_state(1) [of Date_now w now w' d options runId params d' w'']
  by (simp add: run_id_inj)

theorem run_id_is_session_and_clock_witness:
  "run_id (js ''s1'') 1700000000000 \<noteq> run_id (js ''s2'') 1700000000000
   \<and> run_id (js ''s1'') 1700000000000 \<noteq> run_id (js ''s1'') 1700000000001
   \<and> allocated_run_id (run_begin frozen_clock stub_daemon stub_options 0)
       = Some (run_id (js ''s1'') 1700000000000)"
proof -
  obtain params d1 where
    b: "run_begin frozen_clock stub_daemon stub_options 0
          = (Inr (js ''s1:1700000000000'', params), d1, 0)"
    using stub_begin [of stub_daemon 0] by (auto simp: stub_daemon_def)
  have c: "frozen_clock 0 = (1700000000000, 0)" by (simp add: frozen_clock_def)
  have n: "js ''s1'' \<noteq> js ''s2''" by (simp add: js_def)
  have o: "ro_sessionId stub_options = js ''s1''" by (simp add: stub_options_def)
  note t = run_id_is_session_and_clock
  show ?thesis
    using t [where s = "js ''s1''" and a = 1700000000000 and t = "js ''s2''" and b = 1700000000000
               and Date_now = frozen_clock and w = 0 and now = 1700000000000 and w' = 0
               and d = stub_daemon and options = stub_options
               and runId = "js ''s1:1700000000000''" and params = params and d' = d1 and w'' = 0]
          t [where s = "js ''s1''" and a = 1700000000000 and t = "js ''s1''" and b = 1700000000001
               and Date_now = frozen_clock and w = 0 and now = 1700000000000 and w' = 0
               and d = stub_daemon and options = stub_options
               and runId = "js ''s1:1700000000000''" and params = params and d' = d1 and w'' = 0]
          b c n o
    by (simp add: allocated_run_id_def)
qed

text \<open>
  C6 as stated fails: a run of session \<open>s1\<close> that begins after an earlier run of \<open>s1\<close> has
  settled, while the clock still reads the same millisecond, is allocated the run id of
  the earlier run.
\<close>

theorem same_millisecond_same_run_id_counterexample:
  "allocated_run_id (run_begin frozen_clock stub_daemon stub_options 0)
     = Some (js ''s1:1700000000000'')
   \<and> allocated_run_id
       (run_begin frozen_clock
          (fst (snd (run_task (stub_env polite_anthropic) frozen_clock stub_daemon stub_options 0)))
          stub_options
          (snd (snd (run_task (stub_env polite_anthropic) frozen_clock stub_daemon stub_options 0))))
     = Some (js ''s1:1700000000000'')"
proof -
  let ?d = "fst (snd (run_task (stub_env polite_anthropic) frozen_clock stub_daemon stub_options 0))"
  let ?w = "snd (snd (run_task (stub_env polite_anthropic) frozen_clock stub_daemon stub_options 0))"
  have e: "emit ?d = (\<lambda>event. io_return ())"
    by (simp add: emit_run_task stub_daemon_def)
  obtain p1 d1 where
    b1: "run_begin frozen_clock stub_daemon stub_options 0
          = (Inr (js ''s1:1700000000000'', p1), d1, 0)"
    using stub_begin [of stub_daemon 0] by (auto simp: stub_daemon_def)
  obtain p2 d2 where
    b2: "run_begin frozen_clock ?d stub_options ?w = (Inr (js ''s1:1700000000000'', p2), d2, ?w)"
    using stub_begin [OF e, of ?w] by blast
  show ?thesis
    by (simp add: allocated_run_id_def b1 b2)
qed

section \<open>Properties of lanes.ts\<close>

declare drain.simps [simp del]

lemma enqueued_under_append [simp]:
  "enqueued_under k (tr @ tr') = enqueued_under k tr @ enqueued_under k tr'"
  by (simp add: enqueued_under_def)

lemma started_under_append [simp]:
  "started_under k (tr @ tr') = started_under k tr @ started_under k tr'"
  by (simp add: started_under_def)

lemma settled_under_append [simp]:
  "settled_under k (tr @ tr') = settled_under k tr @ settled_under k tr'"
  by (simp add: settled_under_def)

lemma deliveries_append [simp]:
  "deliveries (tr @ tr') = deliveries tr @ deliveries tr'"
  by (simp add: deliveries_def)

lemma under_Cons [simp]:
  "enqueued_under k (Enqueued k' item # tr)
     = (if k' = k then item # enqueued_under k tr else enqueued_under k tr)"
  "enqueued_under k (Started k' item # tr) = enqueued_under k tr"
  "enqueued_under k (Settled k' p outcome # tr) = enqueued_under k tr"
  "started_under k (Enqueued k' item # tr) = started_under k tr"
  "started_under k (Started k' item # tr)
     = (if k' = k then item # started_under k tr else started_under k tr)"
  "started_under k (Settled k' p outcome # tr) = started_under k tr"
  "settled_under k (Enqueued k' item # tr) = settled_under k tr"
  "settled_under k (Started k' item # tr) = settled_under k tr"
  "settled_under k (Settled k' p outcome # tr)
     = (if k' = k then p # settled_under k tr else settled_under k tr)"
  "deliveries (Enqueued k' item # tr) = deliveries tr"
  "deliveries (Started k' item # tr) = deliveries tr"
  "deliveries (Settled k' p outcome # tr) = (p, outcome) # deliveries tr"
  by (simp_all add: enqueued_under_def started_under_def settled_under_def deliveries_def)

lemma under_Nil [simp]:
  "enqueued_under k [] = []" "started_under k [] = []" "settled_under k [] = []"
  "deliveries [] = []"
  by (simp_all add: enqueued_under_def started_under_def settled_under_def deliveries_def)

lemma in_flight_append:
  "in_flight k cur (tr @ tr')
     = (case in_flight k cur tr of None \<Rightarrow> None | Some c \<Rightarrow> in_flight k c tr')"
  by (induction k cur tr rule: in_flight.induct) (simp_all split: option.splits)

lemma drain_empty:
  "queue (heap s a) = [] \<Longrightarrow>
   drain k a s = s\<lparr>heap := (heap s)(a := (heap s a)\<lparr>running := False\<rparr>),
                   lanes := (lanes s)(k := None)\<rparr>"
  by (subst drain.simps) (simp add: Let_def)

lemma drain_throw:
  "queue (heap s a) = item # rest \<Longrightarrow> throws_at_once item = Some e \<Longrightarrow>
   drain k a s
     = drain k a (s\<lparr>heap := (heap s)(a := (heap s a)\<lparr>queue := rest\<rparr>),
                    trace := trace s @ [Started k item, Settled k (it_promise item) (Inl e)]\<rparr>)"
  by (subst drain.simps) (simp add: Let_def)

lemma drain_suspend:
  "queue (heap s a) = item # rest \<Longrightarrow> throws_at_once item = None \<Longrightarrow>
   drain k a s
     = s\<lparr>heap := (heap s)(a := (heap s a)\<lparr>queue := rest\<rparr>),
         trace := trace s @ [Started k item],
         suspended := suspended s @ [(k, a, item)]\<rparr>"
  by (subst drain.simps) (simp add: Let_def)

lemma lane_ok_cong:
  assumes "lane_ok s k"
    and "lanes s' k = lanes s k"
    and "\<And>a. lanes s k = Some a \<Longrightarrow> heap s' a = heap s a"
    and "next_addr s \<le> next_addr s'"
    and "frames_of k s' = frames_of k s"
    and "enqueued_under k (trace s') = enqueued_under k (trace s)"
    and "started_under k (trace s') = started_under k (trace s)"
    and "in_flight k None (trace s') = in_flight k None (trace s)"
  shows "lane_ok s' k"
  using assms by (auto simp: lane_ok_def split: option.splits)

lemma in_flight_other_key:
  "k' \<noteq> k \<Longrightarrow> in_flight k cur [Started k' item] = Some cur"
  "k' \<noteq> k \<Longrightarrow> in_flight k cur [Settled k' p outcome] = Some cur"
  "k' \<noteq> k \<Longrightarrow> in_flight k cur [Started k' item, Settled k' p outcome] = Some cur"
  "in_flight k cur [Enqueued k'' item] = Some cur"
  by simp_all

lemma drain_inv: "at_loop_head k a s \<Longrightarrow> lanes_inv (drain k a s)"
proof (induction k a s rule: drain.induct)
  case (1 k a s)
  note head = "1.prems"
  from head have la: "lanes s k = Some a" and ns: "no_sharing s"
    and others: "\<And>k'. k' \<noteq> k \<Longrightarrow> lane_ok s k'"
    by (simp_all add: at_loop_head_def)
  have other_addr: "a' \<noteq> a" if "lanes s k' = Some a'" "k' \<noteq> k" for k' a'
    using that la ns by (auto simp: no_sharing_def)
  show ?case
  proof (cases "queue (heap s a)")
    case Nil
    let ?s = "s\<lparr>heap := (heap s)(a := (heap s a)\<lparr>running := False\<rparr>),
                 lanes := (lanes s)(k := None)\<rparr>"
    have "lane_ok ?s k'" for k'
    proof (cases "k' = k")
      case True
      with head Nil show ?thesis
        by (simp add: at_loop_head_def lane_ok_def frames_of_def)
    next
      case False
      show ?thesis
        by (rule lane_ok_cong [OF others [OF False]])
           (use False other_addr in \<open>auto simp: frames_of_def\<close>)
    qed
    moreover have "no_sharing ?s" using ns by (auto simp: no_sharing_def)
    ultimately show ?thesis by (simp add: drain_empty [OF Nil] lanes_inv_def)
  next
    case (Cons item rest)
    show ?thesis
    proof (cases "throws_at_once item")
      case (Some e)
      let ?s = "s\<lparr>heap := (heap s)(a := (heap s a)\<lparr>queue := rest\<rparr>),
                   trace := trace s @ [Started k item, Settled k (it_promise item) (Inl e)]\<rparr>"
      have "lane_ok ?s k'" if "k' \<noteq> k" for k'
      proof (rule lane_ok_cong [OF others [OF that]])
        show "in_flight k' None (trace ?s) = in_flight k' None (trace s)"
          using others [OF that] that
          by (auto simp: in_flight_append lane_ok_def split: option.splits)
      qed (use that other_addr in \<open>auto simp: frames_of_def\<close>)
      moreover have "no_sharing ?s" using ns by (auto simp: no_sharing_def)
      ultimately have "at_loop_head k a ?s"
        using head Cons
        by (auto simp: at_loop_head_def frames_of_def in_flight_append)
      then have "lanes_inv (drain k a ?s)"
        using "1.IH" [OF Cons refl Some] by (simp add: Let_def)
      then show ?thesis by (simp add: drain_throw [OF Cons Some])
    next
      case None
      let ?s = "s\<lparr>heap := (heap s)(a := (heap s a)\<lparr>queue := rest\<rparr>),
                   trace := trace s @ [Started k item],
                   suspended := suspended s @ [(k, a, item)]\<rparr>"
      have "lane_ok ?s k'" for k'
      proof (cases "k' = k")
        case True
        with head Cons show ?thesis
          by (auto simp: at_loop_head_def lane_ok_def frames_of_def in_flight_append)
      next
        case False
        show ?thesis
        proof (rule lane_ok_cong [OF others [OF False]])
          show "in_flight k' None (trace ?s) = in_flight k' None (trace s)"
            using others [OF False] False
            by (auto simp: in_flight_append lane_ok_def split: option.splits)
        qed (use False other_addr in \<open>auto simp: frames_of_def\<close>)
      qed
      moreover have "no_sharing ?s" using ns by (auto simp: no_sharing_def)
      ultimately show ?thesis by (simp add: drain_suspend [OF Cons None] lanes_inv_def)
    qed
  qed
qed

lemma enqueueInLane_inv:
  assumes inv: "lanes_inv s"
  shows "lanes_inv (snd (enqueueInLane k task s))"
proof -
  let ?item = "\<lparr>it_promise = next_promise s, throws_at_once = task\<rparr>"
  from inv have ok: "\<And>k'. lane_ok s k'" and ns: "no_sharing s"
    by (simp_all add: lanes_inv_def)
  show ?thesis
  proof (cases "lanes s k")
    case (Some a)
    let ?s = "s\<lparr>next_promise := Suc (next_promise s),
                 trace := trace s @ [Enqueued k ?item],
                 heap := (heap s)(a := (heap s a)\<lparr>queue := queue (heap s a) @ [?item]\<rparr>)\<rparr>"
    from ok [of k] Some have run: "running (heap s a)" by (simp add: lane_ok_def)
    have eq: "snd (enqueueInLane k task s) = ?s"
      using Some run by (simp add: enqueueInLane_def getLane_def processLane_def Let_def)
    have other_addr: "a' \<noteq> a" if "lanes s k' = Some a'" "k' \<noteq> k" for k' a'
      using that Some ns by (auto simp: no_sharing_def)
    have "lane_ok ?s k'" for k'
    proof (cases "k' = k")
      case True
      with ok [of k] Some show ?thesis
        by (auto simp: lane_ok_def frames_of_def in_flight_append)
    next
      case False
      show ?thesis
      proof (rule lane_ok_cong [OF ok [of k']])
        show "in_flight k' None (trace ?s) = in_flight k' None (trace s)"
          using ok [of k']
          by (auto simp: in_flight_append lane_ok_def split: option.splits)
      qed (use False other_addr in \<open>auto simp: frames_of_def\<close>)
    qed
    moreover have "no_sharing ?s" using ns by (simp add: no_sharing_def)
    ultimately show ?thesis by (simp add: eq lanes_inv_def)
  next
    case None
    let ?a = "next_addr s"
    let ?s = "s\<lparr>next_promise := Suc (next_promise s),
                 trace := trace s @ [Enqueued k ?item],
                 next_addr := Suc ?a,
                 lanes := (lanes s)(k \<mapsto> ?a),
                 heap := (heap s)(?a := \<lparr>queue = [?item], running = True\<rparr>)\<rparr>"
    have eq: "snd (enqueueInLane k task s) = drain k ?a ?s"
      using None by (simp add: enqueueInLane_def getLane_def processLane_def Let_def)
    have old_addr: "a' < ?a" if "lanes s k' = Some a'" for k' a'
      using that ok [of k'] by (simp add: lane_ok_def)
    have "lane_ok ?s k'" if "k' \<noteq> k" for k'
    proof (rule lane_ok_cong [OF ok [of k']])
      show "in_flight k' None (trace ?s) = in_flight k' None (trace s)"
        using ok [of k']
        by (auto simp: in_flight_append lane_ok_def split: option.splits)
    qed (use that old_addr in \<open>auto simp: frames_of_def\<close>)
    moreover have "no_sharing ?s"
      using ns old_addr by (fastforce simp: no_sharing_def)
    ultimately have "at_loop_head k ?a ?s"
      using ok [of k] None
      by (auto simp: at_loop_head_def lane_ok_def frames_of_def in_flight_append)
    then show ?thesis by (simp add: eq drain_inv)
  qed
qed

lemma find_SomeD: "find P xs = Some x \<Longrightarrow> x \<in> set xs \<and> P x"
  by (induction xs) (auto split: if_splits)

lemma resume_inv:
  assumes inv: "lanes_inv s"
  shows "lanes_inv (resume p outcome s)"
proof (cases "find (\<lambda>frame. it_promise (snd (snd frame)) = p) (suspended s)")
  case None
  then show ?thesis using inv by (simp add: resume_def)
next
  case (Some frame)
  obtain k a item where f: "frame = (k, a, item)" by (cases frame) auto
  from inv have ok: "\<And>k'. lane_ok s k'" and ns: "no_sharing s"
    by (simp_all add: lanes_inv_def)
  from find_SomeD [OF Some] f have mem: "(k, a, item) \<in> set (suspended s)"
    and p: "it_promise item = p" by auto
  then have "(k, a, item) \<in> set (frames_of k s)" by (simp add: frames_of_def)
  with ok [of k] have la: "lanes s k = Some a" and fr: "frames_of k s = [(k, a, item)]"
    and fl: "in_flight k None (trace s) = Some (Some p)"
    and rest: "a < next_addr s" "running (heap s a)"
      "started_under k (trace s) @ queue (heap s a) = enqueued_under k (trace s)"
    using p by (auto simp: lane_ok_def split: option.splits)
  let ?s = "s\<lparr>suspended := remove1 (k, a, item) (suspended s),
               trace := trace s @ [Settled k p outcome]\<rparr>"
  have eq: "resume p outcome s = drain k a ?s"
    using Some f by (simp add: resume_def)
  have "lane_ok ?s k'" if "k' \<noteq> k" for k'
  proof (rule lane_ok_cong [OF ok [of k']])
    show "in_flight k' None (trace ?s) = in_flight k' None (trace s)"
      using ok [of k'] that
      by (auto simp: in_flight_append lane_ok_def split: option.splits)
    have "(k, a, item) \<notin> set (frames_of k' s)" using that by (auto simp: frames_of_def)
    then show "frames_of k' ?s = frames_of k' s"
      by (simp add: frames_of_def filter_remove1 remove1_idem)
  qed (use that in \<open>auto\<close>)
  moreover have "no_sharing ?s" using ns by (simp add: no_sharing_def)
  moreover have "frames_of k ?s = []"
    using fr by (simp add: frames_of_def filter_remove1)
  ultimately have "at_loop_head k a ?s"
    using la fl rest by (simp add: at_loop_head_def in_flight_append)
  then show ?thesis by (simp add: eq drain_inv)
qed

lemma lane_run_snoc: "lane_run (actions @ [a]) = lane_step (lane_run actions) a"
  by (simp add: lane_run_def)

lemma lane_run_inv: "lanes_inv (lane_run actions)"
proof (induction actions rule: rev_induct)
  case Nil
  show ?case
    by (simp add: lane_run_def lanes_inv_def lane_ok_def no_sharing_def no_lanes_def
          frames_of_def)
next
  case (snoc a actions)
  then show ?case
    by (cases a) (simp_all add: lane_run_snoc enqueueInLane_inv resume_inv)
qed

lemma in_flight_orders:
  "in_flight k cur tr = Some c \<Longrightarrow>
   (case cur of None \<Rightarrow> [] | Some p \<Rightarrow> [p]) @ map it_promise (started_under k tr)
     = settled_under k tr @ (case c of None \<Rightarrow> [] | Some p \<Rightarrow> [p])"
  by (induction k cur tr rule: in_flight.induct) (auto split: if_splits option.splits)

lemma drain_step:
  "queue (heap s a) = [] \<Longrightarrow>
   drain k a s = s\<lparr>heap := (heap s)(a := (heap s a)\<lparr>running := False\<rparr>),
                   lanes := (lanes s)(k := None)\<rparr>"
  "queue (heap s a) \<noteq> [] \<Longrightarrow> throws_at_once (hd (queue (heap s a))) = None \<Longrightarrow>
   drain k a s
     = s\<lparr>heap := (heap s)(a := (heap s a)\<lparr>queue := tl (queue (heap s a))\<rparr>),
         trace := trace s @ [Started k (hd (queue (heap s a)))],
         suspended := suspended s @ [(k, a, hd (queue (heap s a)))]\<rparr>"
  "queue (heap s a) \<noteq> [] \<Longrightarrow> throws_at_once (hd (queue (heap s a))) = Some e \<Longrightarrow>
   drain k a s
     = drain k a
         (s\<lparr>heap := (heap s)(a := (heap s a)\<lparr>queue := tl (queue (heap s a))\<rparr>),
            trace := trace s @ [Started k (hd (queue (heap s a))),
                                Settled k (it_promise (hd (queue (heap s a)))) (Inl e)]\<rparr>)"
proof -
  show "queue (heap s a) = [] \<Longrightarrow>
   drain k a s = s\<lparr>heap := (heap s)(a := (heap s a)\<lparr>running := False\<rparr>),
                   lanes := (lanes s)(k := None)\<rparr>"
    by (rule drain_empty)
next
  assume "queue (heap s a) \<noteq> []" and n: "throws_at_once (hd (queue (heap s a))) = None"
  then obtain item rest where q: "queue (heap s a) = item # rest"
    by (cases "queue (heap s a)") auto
  with n have "throws_at_once item = None" by simp
  from drain_suspend [OF q this] q
  show "drain k a s
     = s\<lparr>heap := (heap s)(a := (heap s a)\<lparr>queue := tl (queue (heap s a))\<rparr>),
         trace := trace s @ [Started k (hd (queue (heap s a)))],
         suspended := suspended s @ [(k, a, hd (queue (heap s a)))]\<rparr>"
    by simp
next
  assume "queue (heap s a) \<noteq> []" and n: "throws_at_once (hd (queue (heap s a))) = Some e"
  then obtain item rest where q: "queue (heap s a) = item # rest"
    by (cases "queue (heap s a)") auto
  with n have "throws_at_once item = Some e" by simp
  from drain_throw [OF q this] q
  show "drain k a s
     = drain k a
         (s\<lparr>heap := (heap s)(a := (heap s a)\<lparr>queue := tl (queue (heap s a))\<rparr>),
            trace := trace s @ [Started k (hd (queue (heap s a))),
                                Settled k (it_promise (hd (queue (heap s a)))) (Inl e)]\<rparr>)"
    by simp
qed

lemma two_lanes_trace:
  "trace (lane_run [Enqueue (js ''a'') None, Enqueue (js ''b'') None,
                    Settle 1 (Inr v), Settle 0 (Inr v')])
     = [Enqueued (js ''a'') \<lparr>it_promise = 0, throws_at_once = None\<rparr>,
        Started (js ''a'') \<lparr>it_promise = 0, throws_at_once = None\<rparr>,
        Enqueued (js ''b'') \<lparr>it_promise = 1, throws_at_once = None\<rparr>,
        Started (js ''b'') \<lparr>it_promise = 1, throws_at_once = None\<rparr>,
        Settled (js ''b'') 1 (Inr v),
        Settled (js ''a'') 0 (Inr v')]"
  by (simp add: lane_run_def no_lanes_def enqueueInLane_def getLane_def processLane_def Let_def
        drain_step resume_def js_def)

lemma own_outcome_mono:
  "own_outcome actions tr d \<Longrightarrow> own_outcome (actions @ actions') (tr @ tr') d"
  by (auto simp: own_outcome_def split: prod.splits)

lemma list_all_own_mono:
  "list_all (own_outcome actions tr) ds \<Longrightarrow>
   list_all (own_outcome (actions @ actions') (tr @ tr')) ds"
  by (induction ds) (simp_all add: own_outcome_mono)

lemma drain_own:
  "list_all (own_outcome actions (trace s)) (deliveries (trace s)) \<Longrightarrow>
   list_all (own_outcome actions (trace (drain k a s))) (deliveries (trace (drain k a s)))"
proof (induction k a s rule: drain.induct)
  case (1 k a s)
  show ?case
  proof (cases "queue (heap s a)")
    case Nil
    with "1.prems" show ?thesis by (simp add: drain_empty)
  next
    case (Cons item rest)
    show ?thesis
    proof (cases "throws_at_once item")
      case None
      from list_all_own_mono [OF "1.prems", of "[]" "[Started k item]"]
      show ?thesis by (simp add: drain_suspend [OF Cons None])
    next
      case (Some e)
      let ?tr = "trace s @ [Started k item, Settled k (it_promise item) (Inl e)]"
      let ?s = "s\<lparr>heap := (heap s)(a := (heap s a)\<lparr>queue := rest\<rparr>), trace := ?tr\<rparr>"
      have "own_outcome actions ?tr (it_promise item, Inl e)"
        using Some by (simp add: own_outcome_def)
      with list_all_own_mono [OF "1.prems", of "[]" "[Started k item, Settled k (it_promise item) (Inl e)]"]
      have "list_all (own_outcome actions (trace ?s)) (deliveries (trace ?s))"
        by simp
      then have "list_all (own_outcome actions (trace (drain k a ?s)))
                   (deliveries (trace (drain k a ?s)))"
        using "1.IH" [OF Cons refl Some] by (simp add: Let_def)
      then show ?thesis by (simp add: drain_throw [OF Cons Some])
    qed
  qed
qed

lemma lane_run_own:
  "list_all (own_outcome actions (trace (lane_run actions)))
     (deliveries (trace (lane_run actions)))"
proof (induction actions rule: rev_induct)
  case Nil
  show ?case by (simp add: lane_run_def no_lanes_def)
next
  case (snoc act actions)
  let ?s = "lane_run actions"
  show ?case
  proof (cases act)
    case (Enqueue k task)
    let ?item = "\<lparr>it_promise = next_promise ?s, throws_at_once = task\<rparr>"
    from list_all_own_mono [OF snoc, of "[act]" "[Enqueued k ?item]"]
    have own: "list_all (own_outcome (actions @ [act]) (trace ?s @ [Enqueued k ?item]))
                 (deliveries (trace ?s @ [Enqueued k ?item]))"
      by simp
    show ?thesis
      using own
      by (auto simp: lane_run_snoc Enqueue enqueueInLane_def getLane_def processLane_def Let_def
            split: option.splits intro!: drain_own)
  next
    case (Settle p outcome)
    show ?thesis
    proof (cases "find (\<lambda>frame. it_promise (snd (snd frame)) = p) (suspended ?s)")
      case None
      with list_all_own_mono [OF snoc, of "[act]" "[]"] show ?thesis
        by (simp add: lane_run_snoc Settle resume_def)
    next
      case (Some frame)
      obtain k a item where f: "frame = (k, a, item)" by (cases frame) auto
      have "own_outcome (actions @ [act]) (trace ?s @ [Settled k p outcome]) (p, outcome)"
        by (simp add: own_outcome_def Settle)
      with list_all_own_mono [OF snoc, of "[act]" "[Settled k p outcome]"]
      have "list_all (own_outcome (actions @ [act]) (trace ?s @ [Settled k p outcome]))
                 (deliveries (trace ?s @ [Settled k p outcome]))"
        by simp
      then show ?thesis
        using Some f by (simp add: lane_run_snoc Settle resume_def drain_own)
    qed
  qed
qed

lemma drain_forget:
  "forget_trace (drain k a (s\<lparr>trace := t\<rparr>)) = forget_trace (drain k a s)"
proof (induction k a s arbitrary: t rule: drain.induct)
  case (1 k a s)
  show ?case
  proof (cases "queue (heap s a)")
    case Nil
    then show ?thesis by (simp add: drain_empty forget_trace_def)
  next
    case (Cons item rest)
    show ?thesis
    proof (cases "throws_at_once item")
      case None
      with Cons show ?thesis by (simp add: drain_suspend forget_trace_def)
    next
      case (Some e)
      let ?s = "s\<lparr>heap := (heap s)(a := (heap s a)\<lparr>queue := rest\<rparr>),
                   trace := trace s @ [Started k item, Settled k (it_promise item) (Inl e)]\<rparr>"
      note ih = "1.IH" [OF Cons refl Some, simplified]
      have q: "queue (heap (s\<lparr>trace := t\<rparr>) a) = item # rest" using Cons by simp
      have "forget_trace (drain k a (s\<lparr>trace := t\<rparr>))
              = forget_trace (drain k a (s\<lparr>heap := (heap s)(a := (heap s a)\<lparr>queue := rest\<rparr>),
                   trace := t @ [Started k item, Settled k (it_promise item) (Inl e)]\<rparr>))"
        using drain_throw [OF q Some, of k] by simp
      also have "\<dots> = forget_trace (drain k a ?s)"
        by (rule ih)
      also have "\<dots> = forget_trace (drain k a s)"
        by (simp only: drain_throw [OF Cons Some])
      finally show ?thesis .
    qed
  qed
qed

lemma resume_forget:
  "forget_trace (resume p outcome s) = forget_trace (resume p outcome' s)"
proof (cases "find (\<lambda>frame. it_promise (snd (snd frame)) = p) (suspended s)")
  case None
  then show ?thesis by (simp add: resume_def)
next
  case (Some frame)
  obtain k a item where f: "frame = (k, a, item)" by (cases frame) auto
  let ?s = "s\<lparr>suspended := remove1 (k, a, item) (suspended s)\<rparr>"
  have "forget_trace (resume p out s) = forget_trace (drain k a ?s)" for out :: "error + 'a"
    using Some f drain_forget [where k = k and a = a and s = ?s
                                 and t = "trace s @ [Settled k p out]"]
    by (simp add: resume_def)
  then show ?thesis by simp
qed

lemma fail_then_succeed_trace:
  "trace (lane_run [Enqueue k None, Enqueue k None, Settle 0 (Inl e), Settle 1 (Inr v)])
     = [Enqueued k \<lparr>it_promise = 0, throws_at_once = None\<rparr>,
        Started k \<lparr>it_promise = 0, throws_at_once = None\<rparr>,
        Enqueued k \<lparr>it_promise = 1, throws_at_once = None\<rparr>,
        Settled k 0 (Inl e),
        Started k \<lparr>it_promise = 1, throws_at_once = None\<rparr>,
        Settled k 1 (Inr v)]"
  by (simp add: lane_run_def no_lanes_def enqueueInLane_def getLane_def processLane_def Let_def
        drain_step resume_def)

lemma throw_then_succeed_trace:
  "trace (lane_run [Enqueue k (Some e), Enqueue k None, Settle 1 (Inr v)])
     = [Enqueued k \<lparr>it_promise = 0, throws_at_once = Some e\<rparr>,
        Started k \<lparr>it_promise = 0, throws_at_once = Some e\<rparr>,
        Settled k 0 (Inl e),
        Enqueued k \<lparr>it_promise = 1, throws_at_once = None\<rparr>,
        Started k \<lparr>it_promise = 1, throws_at_once = None\<rparr>,
        Settled k 1 (Inr v)]"
  by (simp add: lane_run_def no_lanes_def enqueueInLane_def getLane_def processLane_def Let_def
        drain_step resume_def)

text \<open>
  C1. In every run of the scheduler and for every lane key: the executions of the tasks
  enqueued under the key never overlap (a task is started only when none of the key is in
  execution, and only the task in execution is settled); the tasks started under the key
  are a prefix of the tasks enqueued under it, in the order of their arrival; the tasks
  settled are the tasks started, in the same order, but for at most one still in
  execution. Across keys there is no such constraint: with a task enqueued under \<open>a\<close> and
  then one under \<open>b\<close>, both are in execution at once, and the second may settle first.
\<close>

theorem same_key_tasks_run_serially_in_arrival_order:
  "in_flight k None (trace (lane_run actions)) \<noteq> None
   \<and> (\<exists>waiting. enqueued_under k (trace (lane_run actions))
                   = started_under k (trace (lane_run actions)) @ waiting)
   \<and> (\<exists>current. map it_promise (started_under k (trace (lane_run actions)))
                   = settled_under k (trace (lane_run actions)) @ current
                 \<and> length current \<le> 1)
   \<and> trace (lane_run [Enqueue (js ''a'') None, Enqueue (js ''b'') None,
                      Settle 1 (Inr v), Settle 0 (Inr v')])
       = [Enqueued (js ''a'') \<lparr>it_promise = 0, throws_at_once = None\<rparr>,
          Started (js ''a'') \<lparr>it_promise = 0, throws_at_once = None\<rparr>,
          Enqueued (js ''b'') \<lparr>it_promise = 1, throws_at_once = None\<rparr>,
          Started (js ''b'') \<lparr>it_promise = 1, throws_at_once = None\<rparr>,
          Settled (js ''b'') 1 (Inr v),
          Settled (js ''a'') 0 (Inr v')]"
proof -
  let ?tr = "trace (lane_run actions)"
  have ok: "lane_ok (lane_run actions) k"
    using lane_run_inv [of actions] by (simp add: lanes_inv_def)
  then obtain c where c: "in_flight k None ?tr = Some c"
    by (auto simp: lane_ok_def split: option.splits)
  have "\<exists>waiting. enqueued_under k ?tr = started_under k ?tr @ waiting"
  proof (cases "lanes (lane_run actions) k")
    case None
    with ok show ?thesis by (simp add: lane_ok_def)
  next
    case (Some a)
    with ok have "started_under k ?tr @ queue (heap (lane_run actions) a) = enqueued_under k ?tr"
      by (simp add: lane_ok_def)
    then show ?thesis by (intro exI [of _ "queue (heap (lane_run actions) a)"]) simp
  qed
  moreover have "\<exists>current. map it_promise (started_under k ?tr) = settled_under k ?tr @ current
          \<and> length current \<le> 1"
    using in_flight_orders [OF c] by (cases c) auto
  ultimately show ?thesis
    using c two_lanes_trace by simp
qed

text \<open>
  C5. In every run of the scheduler, whatever is delivered to a promise is the outcome of
  its own task: the promise awaited for this task settled with it, or this task threw it
  at once; so a rejection reaches the caller of the failing task only. A task that fails
  leaves the scheduler as it would be had the task succeeded. For every key, either all
  the tasks enqueued under it were started and none is in execution, or one is in
  execution: a task of the key never waits while nothing of the key runs. With two tasks
  enqueued under a key, the first failing (by a rejected promise, or by throwing at
  once), the second is started after the rejection and resolves with its own value.
\<close>

theorem failing_task_does_not_poison_lane:
  "list_all (own_outcome actions (trace (lane_run actions)))
     (deliveries (trace (lane_run actions)))
   \<and> forget_trace (resume p (Inl e) s) = forget_trace (resume p (Inr v) s)
   \<and> (in_flight k None (trace (lane_run actions)) = Some None
        \<and> started_under k (trace (lane_run actions)) = enqueued_under k (trace (lane_run actions))
      \<or> (\<exists>q. in_flight k None (trace (lane_run actions)) = Some (Some q)))
   \<and> trace (lane_run [Enqueue k None, Enqueue k None, Settle 0 (Inl e), Settle 1 (Inr v)])
       = [Enqueued k \<lparr>it_promise = 0, throws_at_once = None\<rparr>,
          Started k \<lparr>it_promise = 0, throws_at_once = None\<rparr>,
          Enqueued k \<lparr>it_promise = 1, throws_at_once = None\<rparr>,
          Settled k 0 (Inl e),
          Started k \<lparr>it_promise = 1, throws_at_once = None\<rparr>,
          Settled k 1 (Inr v)]
   \<and> trace (lane_run [Enqueue k (Some e), Enqueue k None, Settle 1 (Inr v)])
       = [Enqueued k \<lparr>it_promise = 0, throws_at_once = Some e\<rparr>,
          Started k \<lparr>it_promise = 0, throws_at_once = Some e\<rparr>,
          Settled k 0 (Inl e),
          Enqueued k \<lparr>it_promise = 1, throws_at_once = None\<rparr>,
          Started k \<lparr>it_promise = 1, throws_at_once = None\<rparr>,
          Settled k 1 (Inr v)]"
proof -
  have ok: "lane_ok (lane_run actions) k"
    using lane_run_inv [of actions] by (simp add: lanes_inv_def)
  have "in_flight k None (trace (lane_run actions)) = Some None
        \<and> started_under k (trace (lane_run actions)) = enqueued_under k (trace (lane_run actions))
      \<or> (\<exists>q. in_flight k None (trace (lane_run actions)) = Some (Some q))"
    using ok by (cases "lanes (lane_run actions) k") (auto simp: lane_ok_def)
  then show ?thesis
    using lane_run_own [of actions] resume_forget [of p "Inl e" s "Inr v"]
      fail_then_succeed_trace [of k e v] throw_then_succeed_trace [of k e v]
    by simp
qed

end
